theory Spec2Isabelle
  imports Complex_Main "HOL-Library.AList"
begin

section \<open>Data model of the slimproto provider\<close>

text \<open>
  The development embeds \<^verbatim>\<open>music_assistant/server/providers/slimproto/__init__.py\<close>.
  Python's \<^verbatim>\<open>float\<close> values (wall-clock seconds, the mean of the drift samples) are
  modelled as exact rationals; Python's \<^verbatim>\<open>int\<close> as \<^typ>\<open>int\<close>. One handler
  invocation is modelled as one atomic state transformer: every \<^verbatim>\<open>time.time()\<close> read
  of an invocation yields the same instant.
\<close>

datatype SlimPlayerState = SLIM_BUFFERING | SLIM_BUFFER_READY | SLIM_PAUSED | SLIM_PLAYING | SLIM_STOPPED

datatype PlayerState = IDLE | PAUSED | PLAYING

datatype SlimTransition = TRANSITION_NONE | TRANSITION_CROSSFADE

datatype error =
    AssertionError
  | AttributeError
  | KeyError
  | RuntimeError string
  | ExceptionGroup "error list"

fun STATE_MAP :: "SlimPlayerState \<Rightarrow> PlayerState" where
  "STATE_MAP SLIM_BUFFERING = PLAYING"
| "STATE_MAP SLIM_BUFFER_READY = PLAYING"
| "STATE_MAP SLIM_PAUSED = PAUSED"
| "STATE_MAP SLIM_PLAYING = PLAYING"
| "STATE_MAP SLIM_STOPPED = IDLE"

definition MIN_DEVIATION_ADJUST :: int where
  "MIN_DEVIATION_ADJUST = 10"

definition MIN_REQ_PLAYPOINTS :: nat where
  "MIN_REQ_PLAYPOINTS = 4"

definition ENABLE_EXPERIMENTAL_SYNC_JOIN :: bool where
  "ENABLE_EXPERIMENTAL_SYNC_JOIN = False"

definition CACHE_KEY_PREV_STATE :: string where
  "CACHE_KEY_PREV_STATE = ''slimproto_prev_state''"

definition DEFAULT_PLAYER_VOLUME :: int where
  "DEFAULT_PLAYER_VOLUME = 20"

record SyncPlayPoint =
  timestamp :: rat
  sync_job_id :: string
  diff :: int

text \<open>
  Modelled from the spec: the session class \<^verbatim>\<open>SlimClient\<close> comes from the
  \<^verbatim>\<open>aioslimproto\<close> library, which is not part of the sources. Its attributes are the
  ones the provider reads (spec section 3, Session and Player), and its methods are
  recorded as calls made on the session.
\<close>

record SlimClient =
  player_id :: string
  name :: string
  device_model :: string
  max_sample_rate :: int
  powered :: bool
  muted :: bool
  volume_level :: int
  state :: SlimPlayerState
  current_url :: "string option"
  jiffies :: int
  elapsed_seconds :: rat
  elapsed_milliseconds :: int

text \<open>
  Modelled from the spec: the \<^verbatim>\<open>Player\<close> dataclass of the player manager is not
  part of the sources. The fields are those the provider reads or writes; the constant
  attributes given at construction (provider, type, device info, supported features) play
  no role below and are left out.
\<close>

record Player =
  player_id :: string
  name :: string
  available :: bool
  powered :: bool
  state :: PlayerState
  volume_level :: int
  volume_muted :: bool
  current_url :: "string option"
  max_sample_rate :: int
  elapsed_time :: rat
  elapsed_time_last_updated :: rat
  can_sync_with :: "string list"
  synced_to :: "string option"
  group_childs :: "string set"

record QueueItem =
  queue_item_id :: string
  item_name :: string

record MultiClientStreamJob =
  job_id :: string
  pending :: bool
  running :: bool
  client_seconds_skipped :: "string \<rightharpoonup> int"

text \<open>The calls the provider makes on a session object.\<close>

datatype client_call =
    Call_stop
  | Call_play
  | Call_pause
  | Call_play_url string string "(string \<times> string) option" bool SlimTransition int bool
  | Call_send_strm char int
  | Call_power bool
  | Call_volume_set int
  | Call_disconnect

text \<open>Requests to the player manager and the queue controller.\<close>

datatype notice =
    Players_update string
  | Queues_resume string bool

text \<open>Coroutines handed to \<^verbatim>\<open>asyncio.create_task\<close> by the drift controller.\<close>

datatype task =
    Task_skip_over string rat
  | Task_pause_for string rat

text \<open>
  The read-only collaborators of one handler invocation: the clock, the queue controller's
  active queue of a player, the streaming jobs by queue id, the per-player configuration
  values and the server's closing flag.
\<close>

record env =
  now :: rat
  get_active_queue :: "string \<Rightarrow> string"
  multi_client_jobs :: "string \<rightharpoonup> MultiClientStreamJob"
  resolve_stream_url :: "MultiClientStreamJob \<Rightarrow> string \<Rightarrow> string"
  sync_adjust :: "string \<Rightarrow> int"
  crossfade_duration :: "string \<Rightarrow> int"
  closing :: bool

text \<open>
  The provider's mutable state. \<^verbatim>\<open>_socket_clients\<close> is a Python dict, kept as an
  association list in insertion order; a session object is referred to by its key there.
  \<open>players\<close> is the player manager's table \<^verbatim>\<open>mass.players\<close>, \<open>cache\<close> the
  key-value cache. \<open>sent\<close> records, per player id, the calls made on that player's
  session; \<open>notices\<close> the requests to the manager; \<open>tasks\<close> the created tasks.
  \<open>pending_disconnects\<close> holds the sessions whose \<^verbatim>\<open>PLAYER_DISCONNECTED\<close> event
  \<^verbatim>\<open>client_callback\<close> has turned into a \<^verbatim>\<open>_handle_disconnected\<close> task
  (\<^verbatim>\<open>mass.create_task\<close>) that has not run yet.
\<close>

record prov =
  socket_clients :: "(string \<times> SlimClient) list"
  sync_playpoints :: "string \<rightharpoonup> SyncPlayPoint list"
  virtual_providers :: "string \<rightharpoonup> ((Player \<Rightarrow> Player) \<times> (Player \<Rightarrow> Player))"
  do_not_resync_before :: "string \<rightharpoonup> rat"
  players :: "string \<rightharpoonup> Player"
  cache :: "string \<rightharpoonup> (bool \<times> int)"
  sent :: "string \<Rightarrow> client_call list"
  notices :: "notice list"
  tasks :: "task list"
  pending_disconnects :: "SlimClient list"

type_synonym 'a result = "error + 'a"

section \<open>Helpers\<close>

text \<open>Python's truth test on \<^verbatim>\<open>str | None\<close>: neither \<^verbatim>\<open>None\<close> nor empty.\<close>

fun truthy :: "string option \<Rightarrow> bool" where
  "truthy None = False"
| "truthy (Some s) = (s \<noteq> [])"

text \<open>Mutating a Player object reached through the manager's table.\<close>

definition modify_player :: "string \<Rightarrow> (Player \<Rightarrow> Player) \<Rightarrow> prov \<Rightarrow> prov" where
  "modify_player k f s = s\<lparr>players := (players s)(k := map_option f (players s k))\<rparr>"

definition log_call :: "string \<Rightarrow> client_call \<Rightarrow> prov \<Rightarrow> prov" where
  "log_call pid c s = s\<lparr>sent := (sent s)(pid := sent s pid @ [c])\<rparr>"

definition add_notice :: "notice \<Rightarrow> prov \<Rightarrow> prov" where
  "add_notice n s = s\<lparr>notices := notices s @ [n]\<rparr>"

text \<open>
  Modelled from the spec: \<^verbatim>\<open>SlimClient._process_stat_stmu\<close> (library code, not in the
  sources) handles the end-of-playback status; the session's transport state becomes
  stopped.
\<close>

definition process_stat_stmu :: "SlimClient \<Rightarrow> SlimClient" where
  "process_stat_stmu c = c\<lparr>SlimClient.state := SLIM_STOPPED\<rparr>"

text \<open>
  Modelled from the spec: the frames of section 6.1 that the session methods put on the
  wire. \<^verbatim>\<open>stop\<close>, \<^verbatim>\<open>play\<close> (unpause) and \<^verbatim>\<open>pause\<close> are \<^verbatim>\<open>strm\<close> frames with
  subcommand \<^verbatim>\<open>q\<close>, \<^verbatim>\<open>u\<close> and \<^verbatim>\<open>p\<close>; \<^verbatim>\<open>play_url\<close> is a \<^verbatim>\<open>strm s\<close>;
  \<^verbatim>\<open>send_strm\<close> is the frame itself; power and volume are \<^verbatim>\<open>aude\<close> and \<^verbatim>\<open>audg\<close>.
\<close>

datatype frame = Strm char int | Aude bool | Audg int

fun frames_of :: "client_call \<Rightarrow> frame list" where
  "frames_of Call_stop = [Strm CHR ''q'' 0]"
| "frames_of Call_play = [Strm CHR ''u'' 0]"
| "frames_of Call_pause = [Strm CHR ''p'' 0]"
| "frames_of (Call_play_url u m md fl tr td au) = [Strm CHR ''s'' 0]"
| "frames_of (Call_send_strm c rg) = [Strm c rg]"
| "frames_of (Call_power b) = [Aude b]"
| "frames_of (Call_volume_set v) = [Audg v]"
| "frames_of Call_disconnect = []"

definition frames_sent :: "prov \<Rightarrow> string \<Rightarrow> frame list" where
  "frames_sent s pid = concat (map frames_of (sent s pid))"

section \<open>Fan-out and transport commands\<close>

text \<open>
  \<^verbatim>\<open>_get_sync_clients\<close>: the player itself and its \<^verbatim>\<open>group_childs\<close>, restricted to
  the ids that have a session. Python iterates the id set in an unspecified order; the
  sessions are enumerated here in dict order, each once, and every use below treats the
  sessions independently. A missing player makes \<^verbatim>\<open>player.group_childs\<close> fail.
\<close>

definition get_sync_clients :: "prov \<Rightarrow> string \<Rightarrow> string list result" where
  "get_sync_clients s pid =
     (case players s pid of
        None \<Rightarrow> Inl AttributeError
      | Some player \<Rightarrow>
          Inr (remdups (filter (\<lambda>child_id. child_id \<in> insert pid (group_childs player))
                 (map fst (socket_clients s)))))"

definition stop_client :: "string \<Rightarrow> prov \<Rightarrow> prov" where
  "stop_client k s =
     (case map_of (socket_clients s) k of
        None \<Rightarrow> s
      | Some client \<Rightarrow>
          if SlimClient.state client = SLIM_STOPPED then s
          else (log_call (SlimClient.player_id client) Call_stop s)
                 \<lparr>socket_clients := AList.update k (process_stat_stmu client) (socket_clients s)\<rparr>)"

definition cmd_stop :: "prov \<Rightarrow> string \<Rightarrow> unit result \<times> prov" where
  "cmd_stop s pid =
     (case get_sync_clients s pid of
        Inl e \<Rightarrow> (Inl e, s)
      | Inr ks \<Rightarrow> (Inr (), fold stop_client ks s))"

definition play_client :: "string \<Rightarrow> prov \<Rightarrow> prov" where
  "play_client k s =
     (case map_of (socket_clients s) k of
        None \<Rightarrow> s
      | Some client \<Rightarrow>
          if SlimClient.state client \<notin> {SLIM_PAUSED, SLIM_BUFFERING, SLIM_BUFFER_READY} then s
          else log_call (SlimClient.player_id client) Call_play s)"

definition cmd_play :: "prov \<Rightarrow> string \<Rightarrow> unit result \<times> prov" where
  "cmd_play s pid =
     (case get_sync_clients s pid of
        Inl e \<Rightarrow> (Inl (ExceptionGroup [e]), s)
      | Inr ks \<Rightarrow> (Inr (), fold play_client ks s))"

definition pause_client :: "string \<Rightarrow> prov \<Rightarrow> prov" where
  "pause_client k s =
     (case map_of (socket_clients s) k of
        None \<Rightarrow> s
      | Some client \<Rightarrow>
          if SlimClient.state client \<notin> {SLIM_PLAYING, SLIM_BUFFERING, SLIM_BUFFER_READY} then s
          else log_call (SlimClient.player_id client) Call_pause s)"

definition cmd_pause :: "prov \<Rightarrow> string \<Rightarrow> unit result \<times> prov" where
  "cmd_pause s pid =
     (case get_sync_clients s pid of
        Inl e \<Rightarrow> (Inl (ExceptionGroup [e]), s)
      | Inr ks \<Rightarrow> (Inr (), fold pause_client ks s))"

text \<open>\<^verbatim>\<open>f"audio/{url.split('.')[-1].split('?')[0]}"\<close>\<close>

definition mime_type_of :: "string \<Rightarrow> string" where
  "mime_type_of url =
     ''audio/'' @ takeWhile (\<lambda>c. c \<noteq> CHR ''?'')
                   (rev (takeWhile (\<lambda>c. c \<noteq> CHR ''.'') (rev url)))"

definition handle_play_url ::
  "env \<Rightarrow> SlimClient \<Rightarrow> string \<Rightarrow> QueueItem option \<Rightarrow> bool \<Rightarrow> bool \<Rightarrow> bool \<Rightarrow> prov \<Rightarrow> prov" where
  "handle_play_url e client url queue_item send_flush crossfade auto_play s =
     (let pid = SlimClient.player_id client;
          transition_duration = (if crossfade then crossfade_duration e pid else 0)
      in log_call pid
           (Call_play_url url (mime_type_of url)
              (map_option (\<lambda>q. (queue_item_id q, item_name q)) queue_item)
              send_flush
              (if crossfade then TRANSITION_CROSSFADE else TRANSITION_NONE)
              transition_duration
              auto_play) s)"

definition play_url_client ::
  "env \<Rightarrow> string \<Rightarrow> QueueItem option \<Rightarrow> bool \<Rightarrow> string \<Rightarrow> prov \<Rightarrow> prov" where
  "play_url_client e url queue_item auto_play k s =
     (case map_of (socket_clients s) k of
        None \<Rightarrow> s
      | Some client \<Rightarrow> handle_play_url e client url queue_item True False auto_play s)"

definition cmd_play_url ::
  "env \<Rightarrow> prov \<Rightarrow> string \<Rightarrow> string \<Rightarrow> QueueItem option \<Rightarrow> unit result \<times> prov" where
  "cmd_play_url e s pid url queue_item =
     (case cmd_stop s pid of
        (Inl err, s1) \<Rightarrow> (Inl err, s1)
      | (Inr _, s1) \<Rightarrow>
          (case players s1 pid of
             None \<Rightarrow> (Inl AttributeError, s1)
           | Some player \<Rightarrow>
               if truthy (synced_to player)
               then (Inl (RuntimeError ''A synced player cannot receive play commands directly''), s1)
               else
                 (case get_sync_clients s1 pid of
                    Inl err \<Rightarrow> (Inl err, s1)
                  | Inr sync_clients \<Rightarrow>
                      (Inr (), fold (play_url_client e url queue_item (length sync_clients = 1))
                                 sync_clients s1))))"

definition stream_job_client ::
  "env \<Rightarrow> MultiClientStreamJob \<Rightarrow> bool \<Rightarrow> string \<Rightarrow> prov \<Rightarrow> prov" where
  "stream_job_client e stream_job auto_play k s =
     (case map_of (socket_clients s) k of
        None \<Rightarrow> s
      | Some client \<Rightarrow>
          handle_play_url e client
            (resolve_stream_url e stream_job (SlimClient.player_id client))
            None True False auto_play s)"

definition cmd_handle_stream_job ::
  "env \<Rightarrow> prov \<Rightarrow> string \<Rightarrow> MultiClientStreamJob \<Rightarrow> unit result \<times> prov" where
  "cmd_handle_stream_job e s pid stream_job =
     (case cmd_stop s pid of
        (Inl err, s1) \<Rightarrow> (Inl err, s1)
      | (Inr _, s1) \<Rightarrow>
          (case players s1 pid of
             None \<Rightarrow> (Inl AttributeError, s1)
           | Some player \<Rightarrow>
               if truthy (synced_to player)
               then (Inl (RuntimeError ''A synced player cannot receive play commands directly''), s1)
               else
                 (case get_sync_clients s1 pid of
                    Inl err \<Rightarrow> (Inl err, s1)
                  | Inr sync_clients \<Rightarrow>
                      (Inr (), fold (stream_job_client e stream_job (length sync_clients = 1))
                                 sync_clients s1))))"

section \<open>Sync group manager\<close>

definition cmd_sync :: "env \<Rightarrow> prov \<Rightarrow> string \<Rightarrow> string \<Rightarrow> unit result \<times> prov" where
  "cmd_sync e s pid target_player =
     (case players s pid of
        None \<Rightarrow> (Inl AssertionError, s)
      | Some child_player \<Rightarrow>
          (case players s target_player of
             None \<Rightarrow> (Inl AssertionError, s)
           | Some parent_player \<Rightarrow>
               let parent_id = Player.player_id parent_player;
                   child_id = Player.player_id child_player;
                   s1 = modify_player target_player
                          (\<lambda>p. p\<lparr>group_childs := insert parent_id (group_childs p)\<rparr>) s;
                   s2 = modify_player target_player
                          (\<lambda>p. p\<lparr>group_childs := insert child_id (group_childs p)\<rparr>) s1;
                   s3 = modify_player pid (\<lambda>p. p\<lparr>synced_to := Some parent_id\<rparr>) s2;
                   active_queue = get_active_queue e parent_id;
                   stream_job = multi_client_jobs e active_queue
               in
                 if ENABLE_EXPERIMENTAL_SYNC_JOIN \<and> stream_job \<noteq> None
                    \<and> (pending (the stream_job) \<or> running (the stream_job))
                 then
                   (case map_of (socket_clients s3) pid of
                      None \<Rightarrow> (Inl KeyError, s3)
                    | Some client \<Rightarrow>
                        (Inr (), handle_play_url e client
                                   (resolve_stream_url e (the stream_job) pid)
                                   None True False True s3))
                 else if Player.state parent_player = PLAYING
                 then (Inr (), add_notice (Queues_resume active_queue False) s3)
                 else (Inr (), add_notice (Players_update parent_id)
                                 (add_notice (Players_update child_id) s3))))"

definition cmd_unsync :: "prov \<Rightarrow> string \<Rightarrow> unit result \<times> prov" where
  "cmd_unsync s pid =
     (case players s pid of
        None \<Rightarrow> (Inl AttributeError, s)
      | Some child_player \<Rightarrow>
          let child_id = Player.player_id child_player;
              parent_key = synced_to child_player
          in
            (case cmd_stop s child_id of
               (Inl err, s1) \<Rightarrow> (Inl err, s1)
             | (Inr _, s1) \<Rightarrow>
                 let s2 = modify_player pid (\<lambda>p. p\<lparr>synced_to := None\<rparr>) s1 in
                 (case parent_key of
                    None \<Rightarrow> (Inl AttributeError, s2)
                  | Some l \<Rightarrow>
                      (case players s l of
                         None \<Rightarrow> (Inl AttributeError, s2)
                       | Some parent_player \<Rightarrow>
                           let parent_id = Player.player_id parent_player;
                               s3 = modify_player l
                                      (\<lambda>p. p\<lparr>group_childs := group_childs p - {child_id}\<rparr>) s2;
                               s4 = modify_player l
                                      (\<lambda>p. if group_childs p = {parent_id}
                                            then p\<lparr>group_childs := group_childs p - {parent_id}\<rparr>
                                            else p) s3
                           in (Inr (), add_notice (Players_update parent_id)
                                         (add_notice (Players_update child_id) s4))))))"

section \<open>Player registry\<close>

text \<open>
  Modelled from the spec: the defaults of a freshly constructed \<^verbatim>\<open>Player\<close> (the dataclass
  is not in the sources): idle, no leader, no followers, nothing to sync with.
\<close>

definition new_player :: "env \<Rightarrow> SlimClient \<Rightarrow> Player" where
  "new_player e client =
     \<lparr>Player.player_id = SlimClient.player_id client,
      name = SlimClient.name client,
      available = True,
      powered = SlimClient.powered client,
      state = IDLE,
      volume_level = 100,
      volume_muted = False,
      current_url = None,
      max_sample_rate = SlimClient.max_sample_rate client,
      elapsed_time = 0,
      elapsed_time_last_updated = now e,
      can_sync_with = [],
      synced_to = None,
      group_childs = {}\<rparr>"

text \<open>
  \<^verbatim>\<open>_handle_player_update\<close>. A player that does not exist yet is created, passed to the
  register callback of its virtual provider (if any) and stored by the manager under its
  id; \<open>key\<close> is where the Player object lives from then on.
\<close>

definition handle_player_update :: "env \<Rightarrow> SlimClient \<Rightarrow> prov \<Rightarrow> prov" where
  "handle_player_update e client s =
     (let pid = SlimClient.player_id client;
          virtual_provider_info = virtual_providers s (SlimClient.device_model client);
          (key, s1) =
            (case players s pid of
               Some player \<Rightarrow> (pid, s)
             | None \<Rightarrow>
                 let player = new_player e client;
                     player' = (case virtual_provider_info of
                                  None \<Rightarrow> player
                                | Some cbs \<Rightarrow> fst cbs player)
                 in (Player.player_id player',
                     s\<lparr>players := (players s)(Player.player_id player' \<mapsto> player')\<rparr>));
          s2 = modify_player key
                 (\<lambda>p. p\<lparr>available := True,
                         Player.current_url := SlimClient.current_url client,
                         Player.name := SlimClient.name client,
                         Player.powered := SlimClient.powered client,
                         Player.state := STATE_MAP (SlimClient.state client),
                         Player.volume_level := SlimClient.volume_level client,
                         volume_muted := (SlimClient.powered client \<and> SlimClient.muted client),
                         can_sync_with :=
                           map SlimClient.player_id
                             (filter (\<lambda>x. SlimClient.player_id x \<noteq> pid)
                                (map snd (socket_clients s1)))\<rparr>) s1;
          s3 = (case virtual_provider_info of
                  None \<Rightarrow> s2
                | Some cbs \<Rightarrow> modify_player key (snd cbs) s2)
      in add_notice (Players_update pid) s3)"

definition cache_key :: "string \<Rightarrow> string" where
  "cache_key pid = CACHE_KEY_PREV_STATE @ ''.'' @ pid"

text \<open>
  Modelled from the spec: \<^verbatim>\<open>SlimClient.power\<close> and \<^verbatim>\<open>SlimClient.volume_set\<close> (library
  code) set the device state of the session and send it to the device.
\<close>

definition client_power :: "string \<Rightarrow> bool \<Rightarrow> prov \<Rightarrow> prov" where
  "client_power k v s =
     (case map_of (socket_clients s) k of
        None \<Rightarrow> s
      | Some client \<Rightarrow>
          (log_call (SlimClient.player_id client) (Call_power v) s)
            \<lparr>socket_clients :=
               AList.update k (client\<lparr>SlimClient.powered := v\<rparr>) (socket_clients s)\<rparr>)"

definition client_volume_set :: "string \<Rightarrow> int \<Rightarrow> prov \<Rightarrow> prov" where
  "client_volume_set k v s =
     (case map_of (socket_clients s) k of
        None \<Rightarrow> s
      | Some client \<Rightarrow>
          (log_call (SlimClient.player_id client) (Call_volume_set v) s)
            \<lparr>socket_clients :=
               AList.update k (client\<lparr>SlimClient.volume_level := v\<rparr>) (socket_clients s)\<rparr>)"

text \<open>
  \<^verbatim>\<open>_handle_connected\<close>. Modelled from the spec: \<^verbatim>\<open>existing.disconnect()\<close> is library
  code; it closes the incumbent's socket and emits its DISCONNECTED event (spec 4.2), which
  \<^verbatim>\<open>client_callback\<close> turns into a \<^verbatim>\<open>_handle_disconnected(existing)\<close> task. The task
  is recorded in \<open>pending_disconnects\<close>; it runs once the handler has let go.
\<close>

definition handle_connected :: "env \<Rightarrow> SlimClient \<Rightarrow> prov \<Rightarrow> prov" where
  "handle_connected e client s =
     (let pid = SlimClient.player_id client;
          s1 = (case map_of (socket_clients s) pid of
                  None \<Rightarrow> s
                | Some existing \<Rightarrow>
                    (log_call (SlimClient.player_id existing) Call_disconnect s)
                      \<lparr>socket_clients := AList.delete pid (socket_clients s),
                       pending_disconnects := pending_disconnects s @ [existing]\<rparr>);
          s2 = s1\<lparr>socket_clients := AList.update pid client (socket_clients s1)\<rparr>;
          s3 = handle_player_update e client s2;
          s4 = fold (handle_player_update e)
                 (filter (\<lambda>item. SlimClient.player_id item \<noteq> pid) (map snd (socket_clients s3)))
                 s3;
          (init_power, init_volume) =
            (case cache s4 (cache_key pid) of
               Some last_state \<Rightarrow> (fst last_state, snd last_state)
             | None \<Rightarrow> (False, DEFAULT_PLAYER_VOLUME))
      in client_volume_set pid init_volume (client_power pid init_power s4))"

definition handle_disconnected :: "env \<Rightarrow> SlimClient \<Rightarrow> prov \<Rightarrow> prov" where
  "handle_disconnected e client s =
     (if closing e then s
      else
        let pid = SlimClient.player_id client;
            s1 = (case map_of (socket_clients s) pid of
                    None \<Rightarrow> s
                  | Some c \<Rightarrow>
                      s\<lparr>socket_clients := AList.delete pid (socket_clients s),
                        cache := (cache s)(cache_key pid \<mapsto>
                                   (SlimClient.powered c, SlimClient.volume_level c))\<rparr>)
        in (case players s1 pid of
              None \<Rightarrow> s1
            | Some player \<Rightarrow>
                add_notice (Players_update pid)
                  (modify_player pid (\<lambda>p. p\<lparr>available := False\<rparr>) s1)))"

text \<open>Running the oldest pending \<^verbatim>\<open>_handle_disconnected\<close> task.\<close>

definition run_pending_disconnect :: "env \<Rightarrow> prov \<Rightarrow> prov" where
  "run_pending_disconnect e s =
     (case pending_disconnects s of
        [] \<Rightarrow> s
      | client # rest \<Rightarrow> handle_disconnected e client (s\<lparr>pending_disconnects := rest\<rparr>))"

section \<open>Drift controller\<close>

text \<open>\<^verbatim>\<open>int(x)\<close> on a float truncates towards zero.\<close>

definition py_int :: "rat \<Rightarrow> int" where
  "py_int x = (if 0 \<le> x then \<lfloor>x\<rfloor> else \<lceil>x\<rceil>)"

text \<open>\<^verbatim>\<open>statistics.fmean\<close>, called on at least four samples.\<close>

definition fmean :: "int list \<Rightarrow> rat" where
  "fmean xs = of_int (sum_list xs) / of_nat (length xs)"

text \<open>\<^verbatim>\<open>deque(maxlen=n).append\<close>: the oldest entries make room for the new one.\<close>

definition deque_append :: "nat \<Rightarrow> 'a list \<Rightarrow> 'a \<Rightarrow> 'a list" where
  "deque_append maxlen xs x = drop (length xs + 1 - maxlen) (xs @ [x])"

definition get_corrected_elapsed_milliseconds :: "env \<Rightarrow> SlimClient \<Rightarrow> int" where
  "get_corrected_elapsed_milliseconds e client =
     (let pid = SlimClient.player_id client;
          active_queue = get_active_queue e pid;
          skipped_millis =
            (case multi_client_jobs e active_queue of
               None \<Rightarrow> 0
             | Some stream_job \<Rightarrow>
                 (case client_seconds_skipped stream_job pid of None \<Rightarrow> 0 | Some n \<Rightarrow> n) * 1000);
          sync_delay = sync_adjust e pid;
          current_millis = skipped_millis + elapsed_milliseconds client
      in if sync_delay \<noteq> 0 then current_millis - sync_delay else current_millis)"

text \<open>
  The ring of \<^verbatim>\<open>_handle_client_sync\<close> after its two invalidation tests: it is emptied
  when its last playpoint is older than 10 seconds or belongs to another stream job.
\<close>

definition invalidated :: "env \<Rightarrow> MultiClientStreamJob \<Rightarrow> SyncPlayPoint list \<Rightarrow> SyncPlayPoint list" where
  "invalidated e stream_job ring0 =
     (let ring1 = (if ring0 \<noteq> [] \<and> now e - timestamp (last ring0) > 10 then [] else ring0);
          ring2 = (if ring0 \<noteq> [] \<and> sync_job_id (last ring0) \<noteq> job_id stream_job
                   then [] else ring1)
      in ring2)"

text \<open>The playpoint of the current heartbeat, and the ring once it has been appended.\<close>

definition current_playpoint ::
  "env \<Rightarrow> MultiClientStreamJob \<Rightarrow> SlimClient \<Rightarrow> SlimClient \<Rightarrow> SyncPlayPoint" where
  "current_playpoint e stream_job sync_master client =
     \<lparr>timestamp = now e, sync_job_id = job_id stream_job,
      diff = get_corrected_elapsed_milliseconds e sync_master
               - get_corrected_elapsed_milliseconds e client\<rparr>"

definition appended_ring ::
  "env \<Rightarrow> MultiClientStreamJob \<Rightarrow> SlimClient \<Rightarrow> SlimClient \<Rightarrow> SyncPlayPoint list
     \<Rightarrow> SyncPlayPoint list" where
  "appended_ring e stream_job sync_master client ring0 =
     deque_append MIN_REQ_PLAYPOINTS (invalidated e stream_job ring0)
       (current_playpoint e stream_job sync_master client)"

text \<open>\<^verbatim>\<open>self._sync_playpoints.setdefault(player_id, deque(maxlen=MIN_REQ_PLAYPOINTS))\<close>\<close>

definition stored_ring :: "prov \<Rightarrow> string \<Rightarrow> SyncPlayPoint list" where
  "stored_ring s pid = (case sync_playpoints s pid of None \<Rightarrow> [] | Some r \<Rightarrow> r)"

definition set_ring :: "string \<Rightarrow> SyncPlayPoint list \<Rightarrow> prov \<Rightarrow> prov" where
  "set_ring pid r s = s\<lparr>sync_playpoints := (sync_playpoints s)(pid \<mapsto> r)\<rparr>"

text \<open>Whether \<^verbatim>\<open>_do_not_resync_before\<close> still holds the player back.\<close>

definition backing_off :: "env \<Rightarrow> prov \<Rightarrow> string \<Rightarrow> bool" where
  "backing_off e s pid =
     (case do_not_resync_before s pid of
        None \<Rightarrow> False
      | Some backoff_time \<Rightarrow> backoff_time \<noteq> 0 \<and> now e < backoff_time)"

definition handle_client_sync :: "env \<Rightarrow> SlimClient \<Rightarrow> prov \<Rightarrow> unit result \<times> prov" where
  "handle_client_sync e client s =
     (let pid = SlimClient.player_id client in
      case players s pid of
        None \<Rightarrow> (Inl AttributeError, s)
      | Some player \<Rightarrow>
          if \<not> truthy (synced_to player) then (Inr (), s)
          else
            (case Option.bind (synced_to player) (map_of (socket_clients s)) of
               None \<Rightarrow> (Inr (), s)
             | Some sync_master \<Rightarrow>
                 if SlimClient.state sync_master \<noteq> SLIM_PLAYING then (Inr (), s)
                 else if SlimClient.state client \<noteq> SLIM_PLAYING then (Inr (), s)
                 else if backing_off e s pid then (Inr (), s)
                 else
                   let ring0 = stored_ring s pid;
                       s1 = set_ring pid ring0 s
                   in
                     (case multi_client_jobs e (get_active_queue e pid) of
                        None \<Rightarrow> (Inr (), s1)
                      | Some stream_job \<Rightarrow>
                          let ring3 = appended_ring e stream_job sync_master client ring0;
                              s2 = set_ring pid ring3 s
                          in
                            if length ring3 < MIN_REQ_PLAYPOINTS then (Inr (), s2)
                            else
                              let avg_diff = fmean (map diff ring3);
                                  delta = \<bar>avg_diff\<bar>
                              in
                                if delta < of_int MIN_DEVIATION_ADJUST then (Inr (), s2)
                                else if avg_diff > 0
                                then (Inr (),
                                      (set_ring pid [] s)
                                        \<lparr>do_not_resync_before :=
                                           (do_not_resync_before s)(pid \<mapsto> now e + 2),
                                         tasks := tasks s @ [Task_skip_over pid delta]\<rparr>)
                                else (Inr (),
                                      (set_ring pid [] s)
                                        \<lparr>do_not_resync_before :=
                                           (do_not_resync_before s)(pid \<mapsto> now e + delta / 1000 + 2),
                                         tasks := tasks s @ [Task_pause_for pid delta]\<rparr>))))"

definition handle_player_heartbeat :: "env \<Rightarrow> SlimClient \<Rightarrow> prov \<Rightarrow> unit result \<times> prov" where
  "handle_player_heartbeat e client s =
     (if SlimClient.state client = SLIM_STOPPED then (Inr (), s)
      else
        (case players s (SlimClient.player_id client) of
           None \<Rightarrow> (Inl AttributeError, s)
         | Some player \<Rightarrow>
             let s1 = modify_player (SlimClient.player_id client)
                        (\<lambda>p. p\<lparr>elapsed_time := elapsed_seconds client,
                                elapsed_time_last_updated := now e\<rparr>) s
             in if truthy (synced_to player) then handle_client_sync e client s1
                else (Inr (), s1)))"

text \<open>\<^verbatim>\<open>_skip_over\<close> and \<^verbatim>\<open>_pause_for\<close>, the bodies of the tasks created above.\<close>

definition skip_over :: "string \<Rightarrow> rat \<Rightarrow> prov \<Rightarrow> unit result \<times> prov" where
  "skip_over client_id millis s =
     (case map_of (socket_clients s) client_id of
        None \<Rightarrow> (Inl KeyError, s)
      | Some client \<Rightarrow>
          (Inr (), log_call (SlimClient.player_id client)
                     (Call_send_strm CHR ''a'' (py_int millis)) s))"

definition pause_for :: "string \<Rightarrow> rat \<Rightarrow> prov \<Rightarrow> unit result \<times> prov" where
  "pause_for client_id millis s =
     (case map_of (socket_clients s) client_id of
        None \<Rightarrow> (Inl KeyError, s)
      | Some client \<Rightarrow>
          (Inr (), log_call (SlimClient.player_id client)
                     (Call_send_strm CHR ''p'' (py_int millis)) s))"

fun run_task :: "task \<Rightarrow> prov \<Rightarrow> unit result \<times> prov" where
  "run_task (Task_skip_over client_id millis) s = skip_over client_id millis s"
| "run_task (Task_pause_for client_id millis) s = pause_for client_id millis s"

section \<open>Buffer-coordinated start\<close>

text \<open>
  One pass of the polling loop of \<^verbatim>\<open>_handle_buffer_ready\<close>: count the group's sessions
  and those in state \<^verbatim>\<open>BUFFER_READY\<close>, and compare.
\<close>

definition childs_all_ready :: "prov \<Rightarrow> string \<Rightarrow> bool result" where
  "childs_all_ready s pid =
     (case get_sync_clients s pid of
        Inl err \<Rightarrow> Inl err
      | Inr ks \<Rightarrow>
          let childs_total = length ks;
              childs_ready =
                length (filter (\<lambda>k. case map_of (socket_clients s) k of
                                       None \<Rightarrow> False
                                     | Some sync_child \<Rightarrow>
                                         SlimClient.state sync_child = SLIM_BUFFER_READY) ks)
          in Inr (childs_total = childs_ready))"

text \<open>
  The loop \<^verbatim>\<open>while count < 40\<close>. Between two passes the handler sleeps 100 ms and the
  rest of the server runs: \<open>world i\<close> is the provider state the \<open>i\<close>-th pass observes.
  The loop returns the index of the pass at which it is left. As in the source, \<open>count\<close>
  is passed on unchanged. The result \<open>None\<close> stands for a loop that never ends.
\<close>

partial_function (option) wait_buffer_ready ::
  "(nat \<Rightarrow> prov) \<Rightarrow> string \<Rightarrow> nat \<Rightarrow> nat \<Rightarrow> (nat \<times> unit result) option" where
  "wait_buffer_ready world pid count i =
     (if count < 40
      then (case childs_all_ready (world i) pid of
              Inl err \<Rightarrow> Some (i, Inl err)
            | Inr ready \<Rightarrow>
                if ready then Some (i, Inr ())
                else wait_buffer_ready world pid count (i + 1))
      else Some (i, Inr ()))"

definition unpause_client :: "env \<Rightarrow> string \<Rightarrow> prov \<Rightarrow> prov" where
  "unpause_client e k s =
     (case map_of (socket_clients s) k of
        None \<Rightarrow> s
      | Some client \<Rightarrow>
          let timestamp = jiffies client + 20;
              s1 = s\<lparr>do_not_resync_before :=
                      (do_not_resync_before s)(SlimClient.player_id client \<mapsto> now e + 1)\<rparr>
          in log_call (SlimClient.player_id client) (Call_send_strm CHR ''u'' timestamp) s1)"

definition handle_buffer_ready ::
  "env \<Rightarrow> (nat \<Rightarrow> prov) \<Rightarrow> SlimClient \<Rightarrow> (unit result \<times> prov) option" where
  "handle_buffer_ready e world client =
     (let s = world 0 in
      case players s (SlimClient.player_id client) of
        None \<Rightarrow> Some (Inl AttributeError, s)
      | Some player \<Rightarrow>
          if truthy (synced_to player) then Some (Inr (), s)
          else if group_childs player = {}
          then Some (Inr (), log_call (SlimClient.player_id client) Call_play s)
          else
            (case wait_buffer_ready world (Player.player_id player) 0 0 of
               None \<Rightarrow> None
             | Some (i, Inl err) \<Rightarrow> Some (Inl err, world i)
             | Some (i, Inr _) \<Rightarrow>
                 (case get_sync_clients (world i) (Player.player_id player) of
                    Inl err \<Rightarrow> Some (Inl (ExceptionGroup [err]), world i)
                  | Inr ks \<Rightarrow> Some (Inr (), fold (unpause_client e) ks (world i)))))"

section \<open>Example states\<close>

definition mk_player :: "string \<Rightarrow> Player" where
  "mk_player pid =
     \<lparr>Player.player_id = pid, name = pid, available = True, powered = True,
      state = IDLE, volume_level = 20, volume_muted = False, current_url = None,
      max_sample_rate = 48000, elapsed_time = 0, elapsed_time_last_updated = 0,
      can_sync_with = [], synced_to = None, group_childs = {}\<rparr>"

definition mk_client :: "string \<Rightarrow> SlimPlayerState \<Rightarrow> SlimClient" where
  "mk_client pid st =
     \<lparr>SlimClient.player_id = pid, name = pid, device_model = ''squeezelite'',
      max_sample_rate = 48000, powered = True, muted = False, volume_level = 20,
      state = st, current_url = None, jiffies = 1000, elapsed_seconds = 0,
      elapsed_milliseconds = 0\<rparr>"

definition env0 :: env where
  "env0 =
     \<lparr>now = 100, get_active_queue = (\<lambda>p. ''queue''),
      multi_client_jobs = [''queue'' \<mapsto>
         \<lparr>job_id = ''job1'', pending = False, running = True,
          client_seconds_skipped = Map.empty\<rparr>],
      resolve_stream_url = (\<lambda>j p. ''http://x/'' @ p @ ''.flac''),
      sync_adjust = (\<lambda>p. 0), crossfade_duration = (\<lambda>p. 0), closing = False\<rparr>"

definition prov0 :: prov where
  "prov0 =
     \<lparr>socket_clients = [], sync_playpoints = Map.empty, virtual_providers = Map.empty,
      do_not_resync_before = Map.empty, players = Map.empty, cache = Map.empty,
      sent = (\<lambda>p. []), notices = [], tasks = [], pending_disconnects = []\<rparr>"

text \<open>Player \<open>a\<close> alone; players \<open>a\<close> and \<open>b\<close> unrelated; \<open>b\<close> following \<open>a\<close>.\<close>

definition solo :: "SlimPlayerState \<Rightarrow> prov" where
  "solo st = prov0\<lparr>socket_clients := [(''a'', mk_client ''a'' st)],
                   players := [''a'' \<mapsto> mk_player ''a'']\<rparr>"

definition pair :: "SlimPlayerState \<Rightarrow> SlimPlayerState \<Rightarrow> prov" where
  "pair sa sb = prov0\<lparr>socket_clients := [(''a'', mk_client ''a'' sa), (''b'', mk_client ''b'' sb)],
                      players := [''a'' \<mapsto> mk_player ''a'', ''b'' \<mapsto> mk_player ''b'']\<rparr>"

definition grouped :: "SlimPlayerState \<Rightarrow> SlimPlayerState \<Rightarrow> prov" where
  "grouped sa sb =
     prov0\<lparr>socket_clients := [(''a'', mk_client ''a'' sa), (''b'', mk_client ''b'' sb)],
           players := [''a'' \<mapsto> (mk_player ''a'')\<lparr>group_childs := {''a'', ''b''}\<rparr>,
                       ''b'' \<mapsto> (mk_player ''b'')\<lparr>synced_to := Some ''a''\<rparr>]\<rparr>"

definition rejected :: "unit result" where
  "rejected = Inl (RuntimeError ''A synced player cannot receive play commands directly'')"

text \<open>
  Player \<open>a\<close> after \<^verbatim>\<open>cmd_play_url\<close>, once its session has buffered the stream and
  reports \<^verbatim>\<open>BUFFER_READY\<close>.
\<close>

definition solo_buffered :: prov where
  "solo_buffered =
     (snd (cmd_play_url env0 (solo SLIM_STOPPED) ''a'' ''http://x/y.flac'' None))
       \<lparr>socket_clients := [(''a'', mk_client ''a'' SLIM_BUFFER_READY)]\<rparr>"

text \<open>
  Follower \<open>b\<close> of leader \<open>a\<close>, both playing, with given elapsed milliseconds and a given
  ring of playpoints for \<open>b\<close>.
\<close>

definition pp :: "rat \<Rightarrow> int \<Rightarrow> SyncPlayPoint" where
  "pp t d = \<lparr>timestamp = t, sync_job_id = ''job1'', diff = d\<rparr>"

definition follower :: "int \<Rightarrow> SlimClient" where
  "follower ms = (mk_client ''b'' SLIM_PLAYING)\<lparr>elapsed_milliseconds := ms\<rparr>"

definition drift_state :: "int \<Rightarrow> int \<Rightarrow> SyncPlayPoint list \<Rightarrow> prov" where
  "drift_state leader_ms follower_ms ring =
     (grouped SLIM_PLAYING SLIM_PLAYING)
       \<lparr>socket_clients :=
          [(''a'', (mk_client ''a'' SLIM_PLAYING)\<lparr>elapsed_milliseconds := leader_ms\<rparr>),
           (''b'', follower follower_ms)],
        sync_playpoints := [''b'' \<mapsto> ring]\<rparr>"

section \<open>Registry predicates and example runs\<close>

text \<open>
  The callbacks of a virtual provider are foreign code. The registry facts below are about
  callbacks that keep a player's id (register callback) and its \<open>can_sync_with\<close> (update
  callback).
\<close>

definition cb_ok :: "prov \<Rightarrow> bool" where
  "cb_ok s = (\<forall>m cbs. virtual_providers s m = Some cbs \<longrightarrow>
       (\<forall>p. Player.player_id (fst cbs p) = Player.player_id p) \<and>
       (\<forall>p. can_sync_with (snd cbs p) = can_sync_with p))"

text \<open>The tuple \<^verbatim>\<open>_handle_player_update\<close> writes into \<open>can_sync_with\<close> of player \<open>pid\<close>.\<close>

definition others :: "prov \<Rightarrow> string \<Rightarrow> string list" where
  "others s pid = map SlimClient.player_id
      (filter (\<lambda>x. SlimClient.player_id x \<noteq> pid) (map snd (socket_clients s)))"

definition synced_view :: "prov \<Rightarrow> string \<Rightarrow> bool" where
  "synced_view s k = (\<exists>p. players s k = Some p \<and> can_sync_with p = others s k)"

text \<open>Every session is stored under its own player id, as \<^verbatim>\<open>_handle_connected\<close> does.\<close>

definition keys_are_ids :: "prov \<Rightarrow> bool" where
  "keys_are_ids s = (\<forall>(k, c) \<in> set (socket_clients s). SlimClient.player_id c = k)"

definition connected_ids :: "prov \<Rightarrow> string set" where
  "connected_ids s = fst ` set (socket_clients s)"

text \<open>
  Every player with a connected session lists, in \<open>can_sync_with\<close>, exactly the ids of the
  other connected sessions.
\<close>

definition can_sync_inv :: "prov \<Rightarrow> bool" where
  "can_sync_inv s = (\<forall>k \<in> connected_ids s.
      case players s k of
        None \<Rightarrow> False
      | Some p \<Rightarrow> set (can_sync_with p) = connected_ids s - {k})"

text \<open>Sessions \<open>a\<close> and \<open>b\<close> connect; then \<open>b\<close> disconnects; then \<open>c\<close> connects.\<close>

definition two_connected :: prov where
  "two_connected =
     handle_connected env0 (mk_client ''b'' SLIM_STOPPED)
       (handle_connected env0 (mk_client ''a'' SLIM_STOPPED) prov0)"

definition after_disconnect :: prov where
  "after_disconnect = handle_disconnected env0 (mk_client ''b'' SLIM_STOPPED) two_connected"

definition after_reconnect :: prov where
  "after_reconnect = handle_connected env0 (mk_client ''c'' SLIM_STOPPED) after_disconnect"

text \<open>
  Session \<open>a\<close> connects again while its old session is still registered: the incumbent is
  evicted, and its pending \<^verbatim>\<open>_handle_disconnected\<close> task then runs.
\<close>

definition reconnected :: prov where
  "reconnected = handle_connected env0 (mk_client ''a'' SLIM_STOPPED) two_connected"

definition after_eviction :: prov where
  "after_eviction = run_pending_disconnect env0 reconnected"

text \<open>
  A virtual provider for the device model of the example sessions whose update callback
  overwrites \<open>volume_muted\<close> and \<open>can_sync_with\<close>; two sessions connecting under it; a
  powered-off, unmuted session.
\<close>

definition overriding_provider :: prov where
  "overriding_provider =
     prov0\<lparr>virtual_providers :=
             [''squeezelite'' \<mapsto>
                (\<lambda>p. p, \<lambda>p. p\<lparr>volume_muted := True, can_sync_with := []\<rparr>)]\<rparr>"

definition two_connected_overridden :: prov where
  "two_connected_overridden =
     handle_connected env0 (mk_client ''b'' SLIM_STOPPED)
       (handle_connected env0 (mk_client ''a'' SLIM_STOPPED) overriding_provider)"

definition powered_off :: SlimClient where
  "powered_off = (mk_client ''a'' SLIM_STOPPED)\<lparr>SlimClient.powered := False\<rparr>"

section \<open>Basic facts\<close>

lemmas example_defs =
  solo_def pair_def grouped_def prov0_def env0_def mk_player_def mk_client_def

lemma players_stop_client [simp]: "players (stop_client k s) = players s"
  by (simp add: stop_client_def log_call_def split: option.splits)

lemma players_fold_stop_client [simp]: "players (fold stop_client ks s) = players s"
  by (induction ks arbitrary: s) simp_all

lemma cmd_stop_ok:
  "players s pid = Some p \<Longrightarrow>
     fst (cmd_stop s pid) = Inr () \<and> players (snd (cmd_stop s pid)) = players s"
  by (simp add: cmd_stop_def get_sync_clients_def)

lemma stop_client_map_of:
  "map_of (socket_clients (stop_client k s)) k' =
     (if k' = k then map_option (\<lambda>c. c\<lparr>SlimClient.state := SLIM_STOPPED\<rparr>) (map_of (socket_clients s) k)
      else map_of (socket_clients s) k')"
proof (cases "map_of (socket_clients s) k")
  case None
  then show ?thesis by (simp add: stop_client_def)
next
  case (Some c)
  have "SlimClient.state c = SLIM_STOPPED \<Longrightarrow> c\<lparr>SlimClient.state := SLIM_STOPPED\<rparr> = c"
    by (cases c) simp
  with Some show ?thesis
    by (simp add: stop_client_def log_call_def process_stat_stmu_def AList.update_conv')
qed

lemma stop_client_sent_mono:
  "x \<in> set (sent s pid) \<Longrightarrow> x \<in> set (sent (stop_client k s) pid)"
  by (auto simp add: stop_client_def log_call_def split: option.splits)

lemma fold_stop_client_sent_mono:
  "x \<in> set (sent s pid) \<Longrightarrow> x \<in> set (sent (fold stop_client ks s) pid)"
  by (induction ks arbitrary: s) (simp_all add: stop_client_sent_mono)

lemma stop_client_sent_new:
  "map_of (socket_clients s) k = Some c \<Longrightarrow> SlimClient.state c \<noteq> SLIM_STOPPED \<Longrightarrow>
     Call_stop \<in> set (sent (stop_client k s) (SlimClient.player_id c))"
  by (simp add: stop_client_def log_call_def)

lemma fold_stop_client_keeps:
  "map_of (socket_clients t) k = Some c \<Longrightarrow> SlimClient.state c = SLIM_STOPPED \<Longrightarrow>
     map_of (socket_clients (fold stop_client js t)) k = Some c"
proof (induction js arbitrary: t)
  case Nil
  then show ?case by simp
next
  case (Cons j js)
  have "c\<lparr>SlimClient.state := SLIM_STOPPED\<rparr> = c"
    using Cons.prems(2) by (cases c) simp
  with Cons.prems have "map_of (socket_clients (stop_client j t)) k = Some c"
    by (auto simp add: stop_client_map_of)
  from Cons.IH [OF this Cons.prems(2)] show ?case by simp
qed

lemma fold_stop_client_stopped:
  "k \<in> set ks \<Longrightarrow> map_of (socket_clients s) k = Some c \<Longrightarrow>
     map_of (socket_clients (fold stop_client ks s)) k = Some (c\<lparr>SlimClient.state := SLIM_STOPPED\<rparr>)"
proof (induction ks arbitrary: s)
  case Nil
  then show ?case by simp
next
  case (Cons k' ks)
  show ?case
  proof (cases "k' = k")
    case True
    with Cons.prems
    have "map_of (socket_clients (stop_client k' s)) k = Some (c\<lparr>SlimClient.state := SLIM_STOPPED\<rparr>)"
      by (simp add: stop_client_map_of)
    then show ?thesis
      by (simp add: fold_stop_client_keeps)
  next
    case False
    with Cons.prems have "k \<in> set ks" and "map_of (socket_clients (stop_client k' s)) k = Some c"
      by (simp_all add: stop_client_map_of)
    from Cons.IH [OF this] show ?thesis by simp
  qed
qed

lemma fold_stop_client_sent:
  "k \<in> set ks \<Longrightarrow> map_of (socket_clients s) k = Some c \<Longrightarrow>
   SlimClient.state c \<noteq> SLIM_STOPPED \<Longrightarrow>
     Call_stop \<in> set (sent (fold stop_client ks s) (SlimClient.player_id c))"
proof (induction ks arbitrary: s)
  case Nil
  then show ?case by simp
next
  case (Cons k' ks)
  show ?case
  proof (cases "k' = k")
    case True
    with Cons.prems show ?thesis
      by (simp add: fold_stop_client_sent_mono stop_client_sent_new)
  next
    case False
    with Cons.prems have "k \<in> set ks" and "map_of (socket_clients (stop_client k' s)) k = Some c"
      by (simp_all add: stop_client_map_of)
    from Cons.IH [OF this Cons.prems(3)] show ?thesis by simp
  qed
qed

lemma self_in_sync_clients:
  "players s pid = Some p \<Longrightarrow> map_of (socket_clients s) pid = Some c \<Longrightarrow>
     \<exists>ks. get_sync_clients s pid = Inr ks \<and> pid \<in> set ks"
  by (auto simp add: get_sync_clients_def dest: map_of_SomeD intro: rev_image_eqI)

lemma remdups_filter_eq:
  "remdups (filter (\<lambda>k. k = x) ks) = (if x \<in> set ks then [x] else [])"
  by (induction ks) auto

lemma get_sync_clients_solo:
  assumes "players s pid = Some p" and "group_childs p = {}"
    and "map_of (socket_clients s) pid = Some c"
  shows "get_sync_clients s pid = Inr [pid]"
proof -
  have "pid \<in> set (map fst (socket_clients s))"
    using assms(3) by (auto dest: map_of_SomeD intro: rev_image_eqI)
  then show ?thesis
    using assms(1,2) by (simp add: get_sync_clients_def remdups_filter_eq)
qed

lemma frames_sent_log_call:
  "frames_sent (log_call pid c s) pid = frames_sent s pid @ frames_of c"
  by (simp add: frames_sent_def log_call_def)

section \<open>Sync and unsync\<close>

text \<open>
  Claim C2, as stated, fails on \<^verbatim>\<open>cmd_sync\<close>: syncing player \<open>a\<close> to itself is not a
  no-op (its \<open>synced_to\<close> becomes \<open>a\<close>), and syncing \<open>a\<close> to \<open>b\<close> while \<open>b\<close> already
  follows \<open>a\<close> succeeds.
\<close>

theorem cmd_sync_unchecked_counterexample:
  "map_option synced_to (players (solo SLIM_STOPPED) ''a'') = Some None \<and>
   map_option synced_to (players (snd (cmd_sync env0 (solo SLIM_STOPPED) ''a'' ''a'')) ''a'')
     = Some (Some ''a'') \<and>
   map_option synced_to (players (grouped SLIM_STOPPED SLIM_STOPPED) ''b'') = Some (Some ''a'') \<and>
   fst (cmd_sync env0 (grouped SLIM_STOPPED SLIM_STOPPED) ''a'' ''b'') = Inr () \<and>
   map_option synced_to
     (players (snd (cmd_sync env0 (grouped SLIM_STOPPED SLIM_STOPPED) ''a'' ''b'')) ''a'')
     = Some (Some ''b'')"
  by (simp add: cmd_sync_def example_defs ENABLE_EXPERIMENTAL_SYNC_JOIN_def modify_player_def
        add_notice_def Let_def)

text \<open>
  Claim C2, amended: \<^verbatim>\<open>cmd_sync\<close> fails with an assertion error and changes nothing when
  either player is missing. When both exist it always succeeds and establishes the link,
  whether or not child and leader are the same player and whatever the leader's own
  \<open>synced_to\<close> is: the leader's \<open>group_childs\<close> gains the leader and the child, and the
  child's \<open>synced_to\<close> becomes the leader.
\<close>

theorem cmd_sync_effect:
  "(players s child = None \<or> players s leader = None \<longrightarrow>
      cmd_sync e s child leader = (Inl AssertionError, s)) \<and>
   (players s child = Some cp \<and> players s leader = Some lp \<and>
    Player.player_id cp = child \<and> Player.player_id lp = leader \<longrightarrow>
      fst (cmd_sync e s child leader) = Inr () \<and>
      map_option synced_to (players (snd (cmd_sync e s child leader)) child) = Some (Some leader) \<and>
      map_option group_childs (players (snd (cmd_sync e s child leader)) leader)
        = Some (insert child (insert leader (group_childs lp))))"
  by (auto simp add: cmd_sync_def ENABLE_EXPERIMENTAL_SYNC_JOIN_def modify_player_def
        add_notice_def Let_def split: option.splits)

theorem cmd_sync_effect_witness:
  "players (solo SLIM_STOPPED) ''a'' = Some (mk_player ''a'') \<and>
   Player.player_id (mk_player ''a'') = ''a'' \<and>
   fst (cmd_sync env0 (solo SLIM_STOPPED) ''a'' ''a'') = Inr () \<and>
   map_option group_childs (players (snd (cmd_sync env0 (solo SLIM_STOPPED) ''a'' ''a'')) ''a'')
     = Some {''a''} \<and>
   cmd_sync env0 (solo SLIM_STOPPED) ''a'' ''zz'' = (Inl AssertionError, solo SLIM_STOPPED)"
proof -
  have h: "players (solo SLIM_STOPPED) ''a'' = Some (mk_player ''a'')"
    "Player.player_id (mk_player ''a'') = ''a''"
    "players (solo SLIM_STOPPED) ''zz'' = None"
    "group_childs (mk_player ''a'') = {}"
    by (simp_all add: example_defs)
  show ?thesis
    using h cmd_sync_effect [where s = "solo SLIM_STOPPED" and child = "''a''" and leader = "''a''"
        and cp = "mk_player ''a''" and lp = "mk_player ''a''" and e = env0]
      cmd_sync_effect [where s = "solo SLIM_STOPPED" and child = "''a''" and leader = "''zz''"
        and e = env0]
    by simp
qed

text \<open>
  Claim C8: for two distinct registered players \<open>A\<close> and \<open>B\<close> in no sync relationship,
  \<open>sync(A, B)\<close> makes \<open>A\<close> follow \<open>B\<close> with follower set \<open>{A, B}\<close>, and the following
  \<open>unsync(A)\<close> succeeds and restores the player table, hence \<open>A\<close>'s \<open>synced_to\<close> and
  \<open>B\<close>'s \<open>group_childs\<close>: the singleton \<open>{B}\<close> left after removing \<open>A\<close> is cleared.
\<close>

theorem sync_unsync_round_trip:
  assumes "A \<noteq> B" and "players s A = Some pa" and "players s B = Some pb"
    and "Player.player_id pa = A" and "Player.player_id pb = B"
    and "synced_to pa = None" and "group_childs pa = {}"
    and "synced_to pb = None" and "group_childs pb = {}"
  shows "fst (cmd_sync e s A B) = Inr () \<and>
         map_option synced_to (players (snd (cmd_sync e s A B)) A) = Some (Some B) \<and>
         map_option group_childs (players (snd (cmd_sync e s A B)) B) = Some {A, B} \<and>
         fst (cmd_unsync (snd (cmd_sync e s A B)) A) = Inr () \<and>
         players (snd (cmd_unsync (snd (cmd_sync e s A B)) A)) = players s"
proof -
  define s1 where "s1 = snd (cmd_sync e s A B)"
  have f1: "fst (cmd_sync e s A B) = Inr ()"
    using assms
    by (simp add: cmd_sync_def ENABLE_EXPERIMENTAL_SYNC_JOIN_def Let_def)
  have p1: "players s1 = (players s)(B \<mapsto> pb\<lparr>group_childs := {A, B}\<rparr>,
                                      A \<mapsto> pa\<lparr>synced_to := Some B\<rparr>)"
    using assms unfolding s1_def
    by (auto simp add: cmd_sync_def ENABLE_EXPERIMENTAL_SYNC_JOIN_def Let_def
          modify_player_def add_notice_def fun_eq_iff)
  have pA: "players s1 A = Some (pa\<lparr>synced_to := Some B\<rparr>)"
    and pB: "players s1 B = Some (pb\<lparr>group_childs := {A, B}\<rparr>)"
    using assms(1) by (simp_all add: p1)
  obtain s1' where st: "cmd_stop s1 A = (Inr (), s1')" and ps: "players s1' = players s1"
    using cmd_stop_ok [OF pA] by (cases "cmd_stop s1 A") auto
  have u: "fst (cmd_unsync s1 A) = Inr ()"
    using assms pA pB st by (simp add: cmd_unsync_def Let_def)
  have "players (snd (cmd_unsync s1 A)) = players s"
    using assms pA pB st ps p1
    by (auto simp add: cmd_unsync_def Let_def modify_player_def add_notice_def fun_eq_iff)
  with f1 u pA pB show ?thesis
    unfolding s1_def by simp
qed

theorem sync_unsync_round_trip_witness:
  "''a'' \<noteq> ''b'' \<and>
   players (pair SLIM_PLAYING SLIM_STOPPED) ''a'' = Some (mk_player ''a'') \<and>
   players (pair SLIM_PLAYING SLIM_STOPPED) ''b'' = Some (mk_player ''b'') \<and>
   fst (cmd_unsync (snd (cmd_sync env0 (pair SLIM_PLAYING SLIM_STOPPED) ''a'' ''b'')) ''a'')
     = Inr () \<and>
   players (snd (cmd_unsync (snd (cmd_sync env0 (pair SLIM_PLAYING SLIM_STOPPED) ''a'' ''b'')) ''a''))
     = players (pair SLIM_PLAYING SLIM_STOPPED)"
proof -
  have h: "''a'' \<noteq> ''b''"
    "players (pair SLIM_PLAYING SLIM_STOPPED) ''a'' = Some (mk_player ''a'')"
    "players (pair SLIM_PLAYING SLIM_STOPPED) ''b'' = Some (mk_player ''b'')"
    "Player.player_id (mk_player ''a'') = ''a''" "Player.player_id (mk_player ''b'') = ''b''"
    "synced_to (mk_player ''a'') = None" "group_childs (mk_player ''a'') = {}"
    "synced_to (mk_player ''b'') = None" "group_childs (mk_player ''b'') = {}"
    by (simp_all add: example_defs)
  show ?thesis
    using h sync_unsync_round_trip [OF h, of env0] by simp
qed

section \<open>Transport commands on a follower\<close>

lemma play_client_socket_clients [simp]:
  "socket_clients (play_client k s) = socket_clients s"
  by (simp add: play_client_def log_call_def split: option.splits)

lemma pause_client_socket_clients [simp]:
  "socket_clients (pause_client k s) = socket_clients s"
  by (simp add: pause_client_def log_call_def split: option.splits)

lemma stop_client_sent:
  "sent (stop_client j s) q = sent s q @
     (case map_of (socket_clients s) j of
        None \<Rightarrow> []
      | Some a \<Rightarrow> if SlimClient.state a \<noteq> SLIM_STOPPED \<and> SlimClient.player_id a = q
                  then [Call_stop] else [])"
  by (simp add: stop_client_def log_call_def split: option.splits)

lemma play_client_sent:
  "sent (play_client j s) q = sent s q @
     (case map_of (socket_clients s) j of
        None \<Rightarrow> []
      | Some a \<Rightarrow> if SlimClient.state a \<in> {SLIM_PAUSED, SLIM_BUFFERING, SLIM_BUFFER_READY}
                     \<and> SlimClient.player_id a = q
                  then [Call_play] else [])"
  by (simp add: play_client_def log_call_def split: option.splits)

lemma pause_client_sent:
  "sent (pause_client j s) q = sent s q @
     (case map_of (socket_clients s) j of
        None \<Rightarrow> []
      | Some a \<Rightarrow> if SlimClient.state a \<in> {SLIM_PLAYING, SLIM_BUFFERING, SLIM_BUFFER_READY}
                     \<and> SlimClient.player_id a = q
                  then [Call_pause] else [])"
  by (simp add: pause_client_def log_call_def split: option.splits)

lemma fold_stop_client_appends:
  "\<exists>calls. sent (fold stop_client ks s) q = sent s q @ calls \<and>
     (k \<in> set ks \<and> map_of (socket_clients s) k = Some c \<and>
      SlimClient.state c \<noteq> SLIM_STOPPED \<and> SlimClient.player_id c = q
        \<longrightarrow> Call_stop \<in> set calls)"
proof (induction ks arbitrary: s)
  case Nil
  then show ?case by simp
next
  case (Cons j ks)
  obtain first where first: "sent (stop_client j s) q = sent s q @ first"
    and hit: "j = k \<and> map_of (socket_clients s) k = Some c \<and>
              SlimClient.state c \<noteq> SLIM_STOPPED \<and> SlimClient.player_id c = q
                \<longrightarrow> Call_stop \<in> set first"
    using stop_client_sent [of j s q] by auto
  from Cons.IH [of "stop_client j s"] obtain rest
    where rest: "sent (fold stop_client ks (stop_client j s)) q = sent (stop_client j s) q @ rest"
      and later: "k \<in> set ks \<and> map_of (socket_clients (stop_client j s)) k = Some c \<and>
                  SlimClient.state c \<noteq> SLIM_STOPPED \<and> SlimClient.player_id c = q
                    \<longrightarrow> Call_stop \<in> set rest"
    by blast
  have "sent (fold stop_client (j # ks) s) q = sent s q @ (first @ rest)"
    by (simp add: rest first)
  moreover have "Call_stop \<in> set (first @ rest)"
    if "k \<in> set (j # ks)" "map_of (socket_clients s) k = Some c"
       "SlimClient.state c \<noteq> SLIM_STOPPED" "SlimClient.player_id c = q"
  proof (cases "j = k")
    case True
    with that hit show ?thesis by simp
  next
    case False
    with that have "k \<in> set ks" and "map_of (socket_clients (stop_client j s)) k = Some c"
      by (simp_all add: stop_client_map_of)
    with that later show ?thesis by simp
  qed
  ultimately show ?case by blast
qed

lemma fold_play_client_appends:
  "\<exists>calls. sent (fold play_client ks s) q = sent s q @ calls \<and>
     (k \<in> set ks \<and> map_of (socket_clients s) k = Some c \<and>
      SlimClient.state c \<in> {SLIM_PAUSED, SLIM_BUFFERING, SLIM_BUFFER_READY} \<and>
      SlimClient.player_id c = q
        \<longrightarrow> Call_play \<in> set calls)"
proof (induction ks arbitrary: s)
  case Nil
  then show ?case by simp
next
  case (Cons j ks)
  obtain first where first: "sent (play_client j s) q = sent s q @ first"
    and hit: "j = k \<and> map_of (socket_clients s) k = Some c \<and>
              SlimClient.state c \<in> {SLIM_PAUSED, SLIM_BUFFERING, SLIM_BUFFER_READY} \<and>
              SlimClient.player_id c = q
                \<longrightarrow> Call_play \<in> set first"
    using play_client_sent [of j s q] by auto
  from Cons.IH [of "play_client j s"] obtain rest
    where rest: "sent (fold play_client ks (play_client j s)) q = sent (play_client j s) q @ rest"
      and later: "k \<in> set ks \<and> map_of (socket_clients s) k = Some c \<and>
                  SlimClient.state c \<in> {SLIM_PAUSED, SLIM_BUFFERING, SLIM_BUFFER_READY} \<and>
                  SlimClient.player_id c = q
                    \<longrightarrow> Call_play \<in> set rest"
    by auto
  have "sent (fold play_client (j # ks) s) q = sent s q @ (first @ rest)"
    by (simp add: rest first)
  moreover have "Call_play \<in> set (first @ rest)"
    if "k \<in> set (j # ks)" "map_of (socket_clients s) k = Some c"
       "SlimClient.state c \<in> {SLIM_PAUSED, SLIM_BUFFERING, SLIM_BUFFER_READY}"
       "SlimClient.player_id c = q"
    using that hit later by (cases "j = k") auto
  ultimately show ?case by blast
qed

lemma fold_pause_client_appends:
  "\<exists>calls. sent (fold pause_client ks s) q = sent s q @ calls \<and>
     (k \<in> set ks \<and> map_of (socket_clients s) k = Some c \<and>
      SlimClient.state c \<in> {SLIM_PLAYING, SLIM_BUFFERING, SLIM_BUFFER_READY} \<and>
      SlimClient.player_id c = q
        \<longrightarrow> Call_pause \<in> set calls)"
proof (induction ks arbitrary: s)
  case Nil
  then show ?case by simp
next
  case (Cons j ks)
  obtain first where first: "sent (pause_client j s) q = sent s q @ first"
    and hit: "j = k \<and> map_of (socket_clients s) k = Some c \<and>
              SlimClient.state c \<in> {SLIM_PLAYING, SLIM_BUFFERING, SLIM_BUFFER_READY} \<and>
              SlimClient.player_id c = q
                \<longrightarrow> Call_pause \<in> set first"
    using pause_client_sent [of j s q] by auto
  from Cons.IH [of "pause_client j s"] obtain rest
    where rest: "sent (fold pause_client ks (pause_client j s)) q = sent (pause_client j s) q @ rest"
      and later: "k \<in> set ks \<and> map_of (socket_clients s) k = Some c \<and>
                  SlimClient.state c \<in> {SLIM_PLAYING, SLIM_BUFFERING, SLIM_BUFFER_READY} \<and>
                  SlimClient.player_id c = q
                    \<longrightarrow> Call_pause \<in> set rest"
    by auto
  have "sent (fold pause_client (j # ks) s) q = sent s q @ (first @ rest)"
    by (simp add: rest first)
  moreover have "Call_pause \<in> set (first @ rest)"
    if "k \<in> set (j # ks)" "map_of (socket_clients s) k = Some c"
       "SlimClient.state c \<in> {SLIM_PLAYING, SLIM_BUFFERING, SLIM_BUFFER_READY}"
       "SlimClient.player_id c = q"
    using that hit later by (cases "j = k") auto
  ultimately show ?case by blast
qed

lemma member_in_sync_clients:
  "players s pid = Some p \<Longrightarrow> k \<in> insert pid (group_childs p) \<Longrightarrow>
   map_of (socket_clients s) k = Some c \<Longrightarrow>
     \<exists>ks. get_sync_clients s pid = Inr ks \<and> k \<in> set ks"
  by (auto simp add: get_sync_clients_def dest: map_of_SomeD intro: rev_image_eqI)

text \<open>
  Claim C6, as stated, fails for \<^verbatim>\<open>stop\<close>, \<^verbatim>\<open>pause\<close> and \<^verbatim>\<open>play\<close>: invoked on
  the follower \<open>b\<close> of leader \<open>a\<close> they succeed, and the call reaches \<open>b\<close>'s session.
\<close>

theorem follower_transport_counterexample:
  "map_option synced_to (players (grouped SLIM_PLAYING SLIM_PLAYING) ''b'') = Some (Some ''a'') \<and>
   fst (cmd_stop (grouped SLIM_PLAYING SLIM_PLAYING) ''b'') = Inr () \<and>
   sent (snd (cmd_stop (grouped SLIM_PLAYING SLIM_PLAYING) ''b'')) ''b'' = [Call_stop] \<and>
   fst (cmd_pause (grouped SLIM_PLAYING SLIM_PLAYING) ''b'') = Inr () \<and>
   sent (snd (cmd_pause (grouped SLIM_PLAYING SLIM_PLAYING) ''b'')) ''b'' = [Call_pause] \<and>
   fst (cmd_play (grouped SLIM_PAUSED SLIM_PAUSED) ''b'') = Inr () \<and>
   sent (snd (cmd_play (grouped SLIM_PAUSED SLIM_PAUSED) ''b'')) ''b'' = [Call_play]"
  by (simp add: cmd_stop_def cmd_pause_def cmd_play_def get_sync_clients_def stop_client_def
        pause_client_def play_client_def log_call_def example_defs)

text \<open>
  Claim C6, amended: on a player whose \<open>synced_to\<close> is set, \<^verbatim>\<open>cmd_play_url\<close> and
  \<^verbatim>\<open>cmd_handle_stream_job\<close> are rejected with a runtime error, leaving the state of the
  stop fan-out; \<^verbatim>\<open>cmd_stop\<close>, \<^verbatim>\<open>cmd_play\<close> and \<^verbatim>\<open>cmd_pause\<close> are not rejected but
  executed on that player's fan-out set (the player and its \<open>group_childs\<close>, as far as they
  have a session): stop stops every session that is not stopped and sends it a stop, play
  reaches every session that is paused, buffering or buffer-ready, pause every session that
  is playing, buffering or buffer-ready.
\<close>

theorem follower_transport_commands:
  assumes "players s pid = Some p" and "truthy (synced_to p)"
  shows "cmd_play_url e s pid url queue_item = (rejected, snd (cmd_stop s pid)) \<and>
         cmd_handle_stream_job e s pid stream_job = (rejected, snd (cmd_stop s pid)) \<and>
         fst (cmd_stop s pid) = Inr () \<and>
         fst (cmd_play s pid) = Inr () \<and>
         fst (cmd_pause s pid) = Inr () \<and>
         (\<forall>k c. k \<in> insert pid (group_childs p) \<and> map_of (socket_clients s) k = Some c \<longrightarrow>
            (SlimClient.state c \<noteq> SLIM_STOPPED \<longrightarrow>
               map_of (socket_clients (snd (cmd_stop s pid))) k
                 = Some (c\<lparr>SlimClient.state := SLIM_STOPPED\<rparr>) \<and>
               (\<exists>calls. sent (snd (cmd_stop s pid)) (SlimClient.player_id c)
                           = sent s (SlimClient.player_id c) @ calls \<and>
                         Call_stop \<in> set calls)) \<and>
            (SlimClient.state c \<in> {SLIM_PAUSED, SLIM_BUFFERING, SLIM_BUFFER_READY} \<longrightarrow>
               (\<exists>calls. sent (snd (cmd_play s pid)) (SlimClient.player_id c)
                           = sent s (SlimClient.player_id c) @ calls \<and>
                         Call_play \<in> set calls)) \<and>
            (SlimClient.state c \<in> {SLIM_PLAYING, SLIM_BUFFERING, SLIM_BUFFER_READY} \<longrightarrow>
               (\<exists>calls. sent (snd (cmd_pause s pid)) (SlimClient.player_id c)
                           = sent s (SlimClient.player_id c) @ calls \<and>
                         Call_pause \<in> set calls)))"
proof -
  have r: "cmd_play_url e s pid url queue_item = (rejected, snd (cmd_stop s pid))"
    "cmd_handle_stream_job e s pid stream_job = (rejected, snd (cmd_stop s pid))"
    "fst (cmd_stop s pid) = Inr ()" "fst (cmd_play s pid) = Inr ()" "fst (cmd_pause s pid) = Inr ()"
    using assms
    by (simp_all add: cmd_play_url_def cmd_handle_stream_job_def cmd_stop_def cmd_play_def
          cmd_pause_def get_sync_clients_def rejected_def)
  have m: "(SlimClient.state c \<noteq> SLIM_STOPPED \<longrightarrow>
               map_of (socket_clients (snd (cmd_stop s pid))) k
                 = Some (c\<lparr>SlimClient.state := SLIM_STOPPED\<rparr>) \<and>
               (\<exists>calls. sent (snd (cmd_stop s pid)) (SlimClient.player_id c)
                           = sent s (SlimClient.player_id c) @ calls \<and>
                         Call_stop \<in> set calls)) \<and>
            (SlimClient.state c \<in> {SLIM_PAUSED, SLIM_BUFFERING, SLIM_BUFFER_READY} \<longrightarrow>
               (\<exists>calls. sent (snd (cmd_play s pid)) (SlimClient.player_id c)
                           = sent s (SlimClient.player_id c) @ calls \<and>
                         Call_play \<in> set calls)) \<and>
            (SlimClient.state c \<in> {SLIM_PLAYING, SLIM_BUFFERING, SLIM_BUFFER_READY} \<longrightarrow>
               (\<exists>calls. sent (snd (cmd_pause s pid)) (SlimClient.player_id c)
                           = sent s (SlimClient.player_id c) @ calls \<and>
                         Call_pause \<in> set calls))"
    if k: "k \<in> insert pid (group_childs p)" and c: "map_of (socket_clients s) k = Some c" for k c
  proof -
    obtain ks where ks: "get_sync_clients s pid = Inr ks" "k \<in> set ks"
      using member_in_sync_clients [OF assms(1) k c] by blast
    have st: "snd (cmd_stop s pid) = fold stop_client ks s"
      and pl: "snd (cmd_play s pid) = fold play_client ks s"
      and pa: "snd (cmd_pause s pid) = fold pause_client ks s"
      by (simp_all add: cmd_stop_def cmd_play_def cmd_pause_def ks(1))
    show ?thesis
      unfolding st pl pa
      using fold_stop_client_stopped [OF ks(2) c]
        fold_stop_client_appends [of ks s "SlimClient.player_id c" k c]
        fold_play_client_appends [of ks s "SlimClient.player_id c" k c]
        fold_pause_client_appends [of ks s "SlimClient.player_id c" k c]
        ks(2) c
      by blast
  qed
  from r m show ?thesis by blast
qed

theorem follower_transport_commands_witness:
  "players (grouped SLIM_PLAYING SLIM_PLAYING) ''b'' = Some ((mk_player ''b'')\<lparr>synced_to := Some ''a''\<rparr>) \<and>
   truthy (synced_to ((mk_player ''b'')\<lparr>synced_to := Some ''a''\<rparr>)) \<and>
   fst (cmd_play_url env0 (grouped SLIM_PLAYING SLIM_PLAYING) ''b'' ''http://x/y.flac'' None) = rejected \<and>
   fst (cmd_stop (grouped SLIM_PLAYING SLIM_PLAYING) ''b'') = Inr () \<and>
   Call_stop \<in> set (sent (snd (cmd_stop (grouped SLIM_PLAYING SLIM_PLAYING) ''b'')) ''b'') \<and>
   Call_pause \<in> set (sent (snd (cmd_pause (grouped SLIM_PLAYING SLIM_PLAYING) ''b'')) ''b'') \<and>
   Call_play \<in> set (sent (snd (cmd_play (grouped SLIM_PAUSED SLIM_PAUSED) ''b'')) ''b'')"
proof -
  let ?g = "grouped SLIM_PLAYING SLIM_PLAYING"
  let ?h = "grouped SLIM_PAUSED SLIM_PAUSED"
  let ?p = "(mk_player ''b'')\<lparr>synced_to := Some ''a''\<rparr>"
  have h: "players ?g ''b'' = Some ?p" "truthy (synced_to ?p)"
    by (simp_all add: example_defs)
  have h': "players ?h ''b'' = Some ?p" "truthy (synced_to ?p)"
    by (simp_all add: example_defs)
  have m: "''b'' \<in> insert ''b'' (group_childs ?p)" by simp
  have c: "map_of (socket_clients ?g) ''b'' = Some (mk_client ''b'' SLIM_PLAYING)"
    "map_of (socket_clients ?h) ''b'' = Some (mk_client ''b'' SLIM_PAUSED)"
    by (simp_all add: example_defs)
  have f: "SlimClient.state (mk_client ''b'' SLIM_PLAYING) = SLIM_PLAYING"
    "SlimClient.state (mk_client ''b'' SLIM_PAUSED) = SLIM_PAUSED"
    "SlimClient.player_id (mk_client ''b'' SLIM_PLAYING) = ''b''"
    "SlimClient.player_id (mk_client ''b'' SLIM_PAUSED) = ''b''"
    "sent ?g ''b'' = []" "sent ?h ''b'' = []"
    by (simp_all add: example_defs)
  note t1 = follower_transport_commands [OF h, of env0 "''http://x/y.flac''" None]
  note t2 = follower_transport_commands [OF h', of env0 "''http://x/y.flac''" None]
  have r: "fst (cmd_play_url env0 ?g ''b'' ''http://x/y.flac'' None) = rejected"
    "fst (cmd_stop ?g ''b'') = Inr ()"
    using t1 by simp_all
  from t1 m c(1) f(1)
  have "\<exists>calls. sent (snd (cmd_stop ?g ''b'')) (SlimClient.player_id (mk_client ''b'' SLIM_PLAYING))
                  = sent ?g (SlimClient.player_id (mk_client ''b'' SLIM_PLAYING)) @ calls
                \<and> Call_stop \<in> set calls"
    by (metis SlimPlayerState.distinct(19))
  then have s: "Call_stop \<in> set (sent (snd (cmd_stop ?g ''b'')) ''b'')"
    by (auto simp add: f)
  from t1 m c(1) f(1)
  have "\<exists>calls. sent (snd (cmd_pause ?g ''b'')) (SlimClient.player_id (mk_client ''b'' SLIM_PLAYING))
                  = sent ?g (SlimClient.player_id (mk_client ''b'' SLIM_PLAYING)) @ calls
                \<and> Call_pause \<in> set calls"
    by (metis insertI1)
  then have pa: "Call_pause \<in> set (sent (snd (cmd_pause ?g ''b'')) ''b'')"
    by (auto simp add: f)
  from t2 m c(2) f(2)
  have "\<exists>calls. sent (snd (cmd_play ?h ''b'')) (SlimClient.player_id (mk_client ''b'' SLIM_PAUSED))
                  = sent ?h (SlimClient.player_id (mk_client ''b'' SLIM_PAUSED)) @ calls
                \<and> Call_play \<in> set calls"
    by (metis insertI1)
  then have pl: "Call_play \<in> set (sent (snd (cmd_play ?h ''b'')) ''b'')"
    by (auto simp add: f)
  from h r s pa pl show ?thesis by simp
qed

text \<open>
  Claim C9: on a player whose \<open>synced_to\<close> is set, \<^verbatim>\<open>cmd_play_url\<close> and
  \<^verbatim>\<open>cmd_handle_stream_job\<close> fail with the runtime error, and the state they leave is the
  state after the stop fan-out, not the state before the call: a session of that player that
  was not stopped is stopped now and has received a stop.
\<close>

theorem play_url_rejected_after_stop:
  assumes "players s pid = Some p" and "truthy (synced_to p)"
  shows "cmd_play_url e s pid url queue_item = (rejected, snd (cmd_stop s pid)) \<and>
         cmd_handle_stream_job e s pid stream_job = (rejected, snd (cmd_stop s pid)) \<and>
         (\<forall>c. map_of (socket_clients s) pid = Some c \<and> SlimClient.state c \<noteq> SLIM_STOPPED \<longrightarrow>
            map_of (socket_clients (snd (cmd_stop s pid))) pid
              = Some (c\<lparr>SlimClient.state := SLIM_STOPPED\<rparr>) \<and>
            Call_stop \<in> set (sent (snd (cmd_stop s pid)) (SlimClient.player_id c)))"
proof -
  have a: "cmd_play_url e s pid url queue_item = (rejected, snd (cmd_stop s pid))"
    and b: "cmd_handle_stream_job e s pid stream_job = (rejected, snd (cmd_stop s pid))"
    using assms
    by (simp_all add: cmd_play_url_def cmd_handle_stream_job_def cmd_stop_def
          get_sync_clients_def rejected_def)
  have c: "map_of (socket_clients (snd (cmd_stop s pid))) pid
              = Some (c\<lparr>SlimClient.state := SLIM_STOPPED\<rparr>) \<and>
           Call_stop \<in> set (sent (snd (cmd_stop s pid)) (SlimClient.player_id c))"
    if c1: "map_of (socket_clients s) pid = Some c" and c2: "SlimClient.state c \<noteq> SLIM_STOPPED" for c
  proof -
    obtain ks where ks: "get_sync_clients s pid = Inr ks" "pid \<in> set ks"
      using self_in_sync_clients [OF assms(1) c1] by blast
    then show ?thesis
      using fold_stop_client_stopped [OF ks(2) c1] fold_stop_client_sent [OF ks(2) c1 c2]
      by (simp add: cmd_stop_def)
  qed
  from a b c show ?thesis by blast
qed

theorem play_url_rejected_after_stop_witness:
  "players (grouped SLIM_PLAYING SLIM_PLAYING) ''b'' = Some ((mk_player ''b'')\<lparr>synced_to := Some ''a''\<rparr>) \<and>
   truthy (synced_to ((mk_player ''b'')\<lparr>synced_to := Some ''a''\<rparr>)) \<and>
   map_of (socket_clients (grouped SLIM_PLAYING SLIM_PLAYING)) ''b'' = Some (mk_client ''b'' SLIM_PLAYING) \<and>
   fst (cmd_play_url env0 (grouped SLIM_PLAYING SLIM_PLAYING) ''b'' ''http://x/y.flac'' None) = rejected \<and>
   map_of (socket_clients
      (snd (cmd_play_url env0 (grouped SLIM_PLAYING SLIM_PLAYING) ''b'' ''http://x/y.flac'' None))) ''b''
     = Some (mk_client ''b'' SLIM_STOPPED) \<and>
   Call_stop \<in> set (sent
      (snd (cmd_play_url env0 (grouped SLIM_PLAYING SLIM_PLAYING) ''b'' ''http://x/y.flac'' None)) ''b'')"
proof -
  have h: "players (grouped SLIM_PLAYING SLIM_PLAYING) ''b'' = Some ((mk_player ''b'')\<lparr>synced_to := Some ''a''\<rparr>)"
    "truthy (synced_to ((mk_player ''b'')\<lparr>synced_to := Some ''a''\<rparr>))"
    by (simp_all add: example_defs)
  have c: "map_of (socket_clients (grouped SLIM_PLAYING SLIM_PLAYING)) ''b'' = Some (mk_client ''b'' SLIM_PLAYING)"
    "SlimClient.state (mk_client ''b'' SLIM_PLAYING) \<noteq> SLIM_STOPPED"
    "SlimClient.player_id (mk_client ''b'' SLIM_PLAYING) = ''b''"
    "(mk_client ''b'' SLIM_PLAYING)\<lparr>SlimClient.state := SLIM_STOPPED\<rparr> = mk_client ''b'' SLIM_STOPPED"
    by (simp_all add: example_defs)
  show ?thesis
    using h c play_url_rejected_after_stop [OF h, of env0 "''http://x/y.flac''" None]
    by simp
qed

section \<open>Single player: play URL, then buffer ready\<close>

text \<open>
  Claim C7, as stated, fails: after \<^verbatim>\<open>cmd_play_url\<close> on the single player \<open>a\<close> (one
  \<^verbatim>\<open>strm s\<close>, with autostart), the buffer-ready handler calls \<^verbatim>\<open>play\<close> on the
  session, which is a further frame, \<^verbatim>\<open>strm u\<close>.
\<close>

theorem solo_buffer_ready_counterexample:
  "sent (snd (cmd_play_url env0 (solo SLIM_STOPPED) ''a'' ''http://x/y.flac'' None)) ''a''
     = [Call_play_url ''http://x/y.flac'' ''audio/flac'' None True TRANSITION_NONE 0 True] \<and>
   map_option (\<lambda>r. sent (snd r) ''a'')
     (handle_buffer_ready env0 (\<lambda>i. solo_buffered) (mk_client ''a'' SLIM_BUFFER_READY))
     = Some [Call_play_url ''http://x/y.flac'' ''audio/flac'' None True TRANSITION_NONE 0 True,
             Call_play] \<and>
   frames_sent (snd (cmd_play_url env0 (solo SLIM_STOPPED) ''a'' ''http://x/y.flac'' None)) ''a''
     = [Strm CHR ''s'' 0] \<and>
   frames_sent solo_buffered ''a'' = [Strm CHR ''s'' 0] \<and>
   map_option (\<lambda>r. frames_sent (snd r) ''a'')
     (handle_buffer_ready env0 (\<lambda>i. solo_buffered) (mk_client ''a'' SLIM_BUFFER_READY))
     = Some [Strm CHR ''s'' 0, Strm CHR ''u'' 0]"
  by (simp add: solo_buffered_def cmd_play_url_def cmd_stop_def get_sync_clients_def
        stop_client_def play_url_client_def handle_play_url_def handle_buffer_ready_def
        log_call_def frames_sent_def mime_type_of_def example_defs Let_def)

text \<open>
  Claim C7, amended: for a registered player in no sync group, \<^verbatim>\<open>cmd_play_url\<close> sends a
  stop first if the session is not stopped, then exactly one \<^verbatim>\<open>strm s\<close> with
  autostart; a later buffer-ready event on that player, still in no group, makes the handler
  call \<^verbatim>\<open>play\<close> on the session, one further frame \<^verbatim>\<open>strm u\<close>.
\<close>

theorem solo_play_url_then_buffer_ready:
  assumes "players s pid = Some p" and "\<not> truthy (synced_to p)" and "group_childs p = {}"
    and "map_of (socket_clients s) pid = Some c" and "SlimClient.player_id c = pid"
  shows "fst (cmd_play_url e s pid url queue_item) = Inr () \<and>
         sent (snd (cmd_play_url e s pid url queue_item)) pid
           = sent s pid @ (if SlimClient.state c = SLIM_STOPPED then [] else [Call_stop])
               @ [Call_play_url url (mime_type_of url)
                   (map_option (\<lambda>q. (queue_item_id q, item_name q)) queue_item) True TRANSITION_NONE 0 True] \<and>
         frames_sent (snd (cmd_play_url e s pid url queue_item)) pid
           = frames_sent s pid
               @ (if SlimClient.state c = SLIM_STOPPED then [] else [Strm CHR ''q'' 0])
               @ [Strm CHR ''s'' 0] \<and>
         (\<forall>world p'. players (world 0) pid = Some p' \<and> \<not> truthy (synced_to p') \<and>
                     group_childs p' = {} \<longrightarrow>
            handle_buffer_ready e world c = Some (Inr (), log_call pid Call_play (world 0)) \<and>
            frames_sent (log_call pid Call_play (world 0)) pid
              = frames_sent (world 0) pid @ [Strm CHR ''u'' 0])"
proof -
  define s1 where "s1 = stop_client pid s"
  have g: "get_sync_clients s pid = Inr [pid]"
    using get_sync_clients_solo [OF assms(1,3,4)] .
  have st: "cmd_stop s pid = (Inr (), s1)"
    by (simp add: cmd_stop_def g s1_def)
  have c1: "map_of (socket_clients s1) pid = Some (c\<lparr>SlimClient.state := SLIM_STOPPED\<rparr>)"
    using assms(4) by (simp add: s1_def stop_client_map_of)
  have p1: "players s1 pid = Some p"
    using assms(1) by (simp add: s1_def)
  have g1: "get_sync_clients s1 pid = Inr [pid]"
    using get_sync_clients_solo [OF p1 assms(3) c1] .
  have sent1: "sent s1 pid = sent s pid @ (if SlimClient.state c = SLIM_STOPPED then [] else [Call_stop])"
    using assms(4,5) by (simp add: s1_def stop_client_def log_call_def)
  have r: "cmd_play_url e s pid url queue_item
             = (Inr (), log_call pid
                  (Call_play_url url (mime_type_of url)
                   (map_option (\<lambda>q. (queue_item_id q, item_name q)) queue_item) True TRANSITION_NONE 0 True) s1)"
    using assms(2,5) p1 g1 c1
    by (simp add: cmd_play_url_def st play_url_client_def handle_play_url_def Let_def)
  have a: "fst (cmd_play_url e s pid url queue_item) = Inr ()"
    by (simp add: r)
  have b: "sent (snd (cmd_play_url e s pid url queue_item)) pid
           = sent s pid @ (if SlimClient.state c = SLIM_STOPPED then [] else [Call_stop])
               @ [Call_play_url url (mime_type_of url)
                   (map_option (\<lambda>q. (queue_item_id q, item_name q)) queue_item) True TRANSITION_NONE 0 True]"
    by (simp add: r log_call_def sent1)
  have f: "frames_sent (snd (cmd_play_url e s pid url queue_item)) pid
           = frames_sent s pid
               @ (if SlimClient.state c = SLIM_STOPPED then [] else [Strm CHR ''q'' 0])
               @ [Strm CHR ''s'' 0]"
    unfolding frames_sent_def b by simp
  have w: "handle_buffer_ready e world c = Some (Inr (), log_call pid Call_play (world 0)) \<and>
           frames_sent (log_call pid Call_play (world 0)) pid
              = frames_sent (world 0) pid @ [Strm CHR ''u'' 0]"
    if "players (world 0) pid = Some p' \<and> \<not> truthy (synced_to p') \<and> group_childs p' = {}"
    for world p'
    using that assms(5)
    by (simp add: handle_buffer_ready_def Let_def frames_sent_log_call)
  from a b f w show ?thesis by blast
qed

theorem solo_play_url_then_buffer_ready_witness:
  "players (solo SLIM_STOPPED) ''a'' = Some (mk_player ''a'') \<and>
   map_of (socket_clients (solo SLIM_STOPPED)) ''a'' = Some (mk_client ''a'' SLIM_STOPPED) \<and>
   frames_sent (snd (cmd_play_url env0 (solo SLIM_STOPPED) ''a'' ''http://x/y.flac'' None)) ''a''
     = [Strm CHR ''s'' 0] \<and>
   handle_buffer_ready env0 (\<lambda>i. solo SLIM_STOPPED) (mk_client ''a'' SLIM_STOPPED)
     = Some (Inr (), log_call ''a'' Call_play (solo SLIM_STOPPED))"
proof -
  have h: "players (solo SLIM_STOPPED) ''a'' = Some (mk_player ''a'')"
    "\<not> truthy (synced_to (mk_player ''a''))" "group_childs (mk_player ''a'') = {}"
    "map_of (socket_clients (solo SLIM_STOPPED)) ''a'' = Some (mk_client ''a'' SLIM_STOPPED)"
    "SlimClient.player_id (mk_client ''a'' SLIM_STOPPED) = ''a''"
    by (simp_all add: example_defs)
  have f: "frames_sent (solo SLIM_STOPPED) ''a'' = []"
    "SlimClient.state (mk_client ''a'' SLIM_STOPPED) = SLIM_STOPPED"
    by (simp_all add: example_defs frames_sent_def)
  show ?thesis
    using h f solo_play_url_then_buffer_ready [OF h, of env0 "''http://x/y.flac''" None]
    by simp
qed

section \<open>Registry: the can_sync_with field\<close>

lemma hpu_socket_clients [simp]:
  "socket_clients (handle_player_update e c s) = socket_clients s"
  by (simp add: handle_player_update_def Let_def modify_player_def add_notice_def
        split: option.splits prod.splits)

lemma hpu_virtual_providers [simp]:
  "virtual_providers (handle_player_update e c s) = virtual_providers s"
  by (simp add: handle_player_update_def Let_def modify_player_def add_notice_def
        split: option.splits prod.splits)

lemma player_id_new_player [simp]:
  "Player.player_id (new_player e c) = SlimClient.player_id c"
  by (simp add: new_player_def)

lemma hpu_self:
  assumes "cb_ok s"
  shows "\<exists>p. players (handle_player_update e c s) (SlimClient.player_id c) = Some p \<and>
             can_sync_with p = others s (SlimClient.player_id c)"
  using assms
  by (auto simp add: handle_player_update_def Let_def modify_player_def add_notice_def
        others_def cb_ok_def split: option.splits prod.splits)

lemma hpu_other:
  assumes "cb_ok s" and "k \<noteq> SlimClient.player_id c"
  shows "players (handle_player_update e c s) k = players s k"
  using assms
  by (auto simp add: handle_player_update_def Let_def modify_player_def add_notice_def
        cb_ok_def split: option.splits prod.splits)

lemma others_hpu [simp]: "others (handle_player_update e c s) k = others s k"
  by (simp add: others_def)

lemma cb_ok_hpu [simp]: "cb_ok (handle_player_update e c s) = cb_ok s"
  by (simp add: cb_ok_def)

lemma hpu_synced_view_self:
  "cb_ok s \<Longrightarrow> synced_view (handle_player_update e c s) (SlimClient.player_id c)"
  using hpu_self [of s e c] by (simp add: synced_view_def)

lemma hpu_synced_view_keep:
  "cb_ok s \<Longrightarrow> synced_view s k \<Longrightarrow> synced_view (handle_player_update e c s) k"
  using hpu_self [of s e c] hpu_other [of s k c e]
  by (cases "k = SlimClient.player_id c") (auto simp add: synced_view_def)

lemma fold_hpu_socket_clients [simp]:
  "socket_clients (fold (handle_player_update e) cs s) = socket_clients s"
  by (induction cs arbitrary: s) simp_all

lemma fold_hpu_cb_ok [simp]:
  "cb_ok (fold (handle_player_update e) cs s) = cb_ok s"
  by (induction cs arbitrary: s) simp_all

lemma fold_hpu_keep:
  "cb_ok s \<Longrightarrow> synced_view s k \<Longrightarrow> synced_view (fold (handle_player_update e) cs s) k"
  by (induction cs arbitrary: s) (simp_all add: hpu_synced_view_keep)

lemma fold_hpu_each:
  "cb_ok s \<Longrightarrow> c \<in> set cs \<Longrightarrow>
     synced_view (fold (handle_player_update e) cs s) (SlimClient.player_id c)"
proof (induction cs arbitrary: s)
  case Nil
  then show ?case by simp
next
  case (Cons x cs)
  show ?case
  proof (cases "c = x")
    case True
    with Cons.prems show ?thesis
      by (simp add: fold_hpu_keep hpu_synced_view_self)
  next
    case False
    with Cons.prems show ?thesis
      by (simp add: Cons.IH)
  qed
qed

lemma can_sync_inv_iff:
  "can_sync_inv s \<longleftrightarrow>
     (\<forall>k \<in> connected_ids s.
        \<exists>p. players s k = Some p \<and> set (can_sync_with p) = connected_ids s - {k})"
  by (auto simp add: can_sync_inv_def split: option.splits)

lemma set_others:
  "keys_are_ids s \<Longrightarrow> set (others s k) = connected_ids s - {k}"
  by (force simp add: keys_are_ids_def others_def connected_ids_def)

lemma synced_view_inv:
  "keys_are_ids s \<Longrightarrow> \<forall>k \<in> connected_ids s. synced_view s k \<Longrightarrow> can_sync_inv s"
  by (auto simp add: can_sync_inv_iff synced_view_def set_others)

lemma connected_ids_client_power [simp]:
  "connected_ids (client_power k v s) = connected_ids s"
  by (auto simp add: client_power_def connected_ids_def log_call_def AList.dom_update
        split: option.splits dest: map_of_SomeD intro: rev_image_eqI)

lemma connected_ids_client_volume_set [simp]:
  "connected_ids (client_volume_set k v s) = connected_ids s"
  by (auto simp add: client_volume_set_def connected_ids_def log_call_def AList.dom_update
        split: option.splits dest: map_of_SomeD intro: rev_image_eqI)

lemma players_client_power [simp]: "players (client_power k v s) = players s"
  by (simp add: client_power_def log_call_def split: option.splits)

lemma players_client_volume_set [simp]: "players (client_volume_set k v s) = players s"
  by (simp add: client_volume_set_def log_call_def split: option.splits)

lemma can_sync_inv_cong:
  "players t = players s \<Longrightarrow> connected_ids t = connected_ids s \<Longrightarrow>
     can_sync_inv t = can_sync_inv s"
  by (simp add: can_sync_inv_iff)

lemma hpu_connected_ids [simp]:
  "connected_ids (handle_player_update e c s) = connected_ids s"
  by (simp add: connected_ids_def)

lemma keys_are_ids_hpu [simp]:
  "keys_are_ids (handle_player_update e c s) = keys_are_ids s"
  by (simp add: keys_are_ids_def)

lemma hpu_can_sync_inv:
  assumes "keys_are_ids s" and "cb_ok s" and "can_sync_inv s"
  shows "can_sync_inv (handle_player_update e c s)"
proof -
  have "\<exists>p. players (handle_player_update e c s) k = Some p \<and>
             set (can_sync_with p) = connected_ids s - {k}"
    if "k \<in> connected_ids s" for k
  proof (cases "k = SlimClient.player_id c")
    case True
    then show ?thesis
      using hpu_self [OF assms(2), of e c] set_others [OF assms(1)] by auto
  next
    case False
    then show ?thesis
      using hpu_other [OF assms(2) False, of e] assms(3) that
      by (simp add: can_sync_inv_iff)
  qed
  then show ?thesis
    by (simp add: can_sync_inv_iff)
qed

lemma connect_can_sync_inv:
  assumes "keys_are_ids s" and "cb_ok s"
  shows "can_sync_inv (handle_connected e client s)"
proof -
  define pid where "pid = SlimClient.player_id client"
  define s1 where "s1 = (case map_of (socket_clients s) pid of
                  None \<Rightarrow> s
                | Some existing \<Rightarrow>
                    (log_call (SlimClient.player_id existing) Call_disconnect s)
                      \<lparr>socket_clients := AList.delete pid (socket_clients s),
                       pending_disconnects := pending_disconnects s @ [existing]\<rparr>)"
  define s2 where "s2 = s1\<lparr>socket_clients := AList.update pid client (socket_clients s1)\<rparr>"
  define s3 where "s3 = handle_player_update e client s2"
  define s4 where "s4 = fold (handle_player_update e)
                 (filter (\<lambda>item. SlimClient.player_id item \<noteq> pid) (map snd (socket_clients s3)))
                 s3"
  have sub1: "set (socket_clients s1) \<subseteq> set (socket_clients s)"
    by (auto simp add: s1_def log_call_def AList.delete_eq split: option.splits)
  have k1: "keys_are_ids s1"
    using assms(1) sub1 by (auto simp add: keys_are_ids_def)
  have set2: "set (socket_clients s2) \<subseteq> insert (pid, client) (set (socket_clients s1))"
  proof -
    have "set (AList.update k v al) \<subseteq> insert (k, v) (set al)" for k :: string and v :: SlimClient and al
      by (induction al) auto
    then show ?thesis by (simp add: s2_def)
  qed
  have k2: "keys_are_ids s2"
    using k1 set2 by (auto simp add: keys_are_ids_def pid_def)
  have cb2: "cb_ok s2"
    using assms(2) by (simp add: cb_ok_def s2_def s1_def log_call_def split: option.splits)
  have cb3: "cb_ok s3"
    using cb2 by (simp add: s3_def)
  have sc3: "socket_clients s3 = socket_clients s2"
    by (simp add: s3_def)
  have v3: "synced_view s3 pid"
    using hpu_synced_view_self [OF cb2, of e client] by (simp add: s3_def pid_def)
  have v4: "synced_view s4 k" if "k \<in> connected_ids s2" for k
  proof (cases "k = pid")
    case True
    then show ?thesis
      using fold_hpu_keep [OF cb3 v3] by (simp add: s4_def)
  next
    case False
    from that obtain c where c: "(k, c) \<in> set (socket_clients s2)"
      by (auto simp add: connected_ids_def)
    with k2 have "SlimClient.player_id c = k"
      by (auto simp add: keys_are_ids_def)
    with c False have "c \<in> set (filter (\<lambda>item. SlimClient.player_id item \<noteq> pid)
                                   (map snd (socket_clients s3)))"
      by (force simp add: sc3)
    from fold_hpu_each [OF cb3 this, of e] \<open>SlimClient.player_id c = k\<close>
    show ?thesis by (simp add: s4_def)
  qed
  have sc4: "socket_clients s4 = socket_clients s2"
    by (simp add: s4_def sc3)
  have "keys_are_ids s4" and "connected_ids s4 = connected_ids s2"
    using k2 by (simp_all add: keys_are_ids_def connected_ids_def sc4)
  with v4 have inv4: "can_sync_inv s4"
    by (simp add: synced_view_inv)
  have "handle_connected e client s =
          (case (case cache s4 (cache_key pid) of
               Some last_state \<Rightarrow> (fst last_state, snd last_state)
             | None \<Rightarrow> (False, DEFAULT_PLAYER_VOLUME)) of
             (init_power, init_volume) \<Rightarrow>
                client_volume_set pid init_volume (client_power pid init_power s4))"
    unfolding handle_connected_def Let_def s4_def s3_def s2_def s1_def pid_def ..
  then obtain ip iv where "handle_connected e client s = client_volume_set pid iv (client_power pid ip s4)"
    by (cases "case cache s4 (cache_key pid) of
               Some last_state \<Rightarrow> (fst last_state, snd last_state)
             | None \<Rightarrow> (False, DEFAULT_PLAYER_VOLUME)") simp
  moreover have "can_sync_inv (client_volume_set pid iv (client_power pid ip s4)) = can_sync_inv s4"
    by (rule can_sync_inv_cong) simp_all
  ultimately show ?thesis
    using inv4 by simp
qed

lemma set_update_subset:
  "set (AList.update k x al) \<subseteq> insert (k, x) (set al)"
  by (induction al) auto

lemma keys_are_ids_update:
  assumes "keys_are_ids s" and "SlimClient.player_id c = k"
    and "socket_clients t = AList.update k c (socket_clients s)"
  shows "keys_are_ids t"
  unfolding keys_are_ids_def
proof (rule ballI)
  fix kc
  assume "kc \<in> set (socket_clients t)"
  with assms(3) set_update_subset [of k c "socket_clients s"]
  have "kc = (k, c) \<or> kc \<in> set (socket_clients s)" by auto
  then show "case kc of (k', c') \<Rightarrow> SlimClient.player_id c' = k'"
  proof
    assume "kc = (k, c)"
    with assms(2) show ?thesis by simp
  next
    assume "kc \<in> set (socket_clients s)"
    with assms(1) show ?thesis by (simp add: keys_are_ids_def)
  qed
qed

lemma keys_are_ids_client_power:
  assumes "keys_are_ids s"
  shows "keys_are_ids (client_power k v s)"
proof (cases "map_of (socket_clients s) k")
  case None
  with assms show ?thesis by (simp add: client_power_def)
next
  case (Some c)
  then have "(k, c) \<in> set (socket_clients s)" by (rule map_of_SomeD)
  with assms have "SlimClient.player_id c = k" by (auto simp add: keys_are_ids_def)
  then have "SlimClient.player_id (c\<lparr>SlimClient.powered := v\<rparr>) = k" by simp
  moreover have "socket_clients (client_power k v s)
      = AList.update k (c\<lparr>SlimClient.powered := v\<rparr>) (socket_clients s)"
    using Some by (simp add: client_power_def log_call_def)
  ultimately show ?thesis
    using assms by (rule keys_are_ids_update [rotated])
qed

lemma keys_are_ids_client_volume_set:
  assumes "keys_are_ids s"
  shows "keys_are_ids (client_volume_set k v s)"
proof (cases "map_of (socket_clients s) k")
  case None
  with assms show ?thesis by (simp add: client_volume_set_def)
next
  case (Some c)
  then have "(k, c) \<in> set (socket_clients s)" by (rule map_of_SomeD)
  with assms have "SlimClient.player_id c = k" by (auto simp add: keys_are_ids_def)
  then have "SlimClient.player_id (c\<lparr>SlimClient.volume_level := v\<rparr>) = k" by simp
  moreover have "socket_clients (client_volume_set k v s)
      = AList.update k (c\<lparr>SlimClient.volume_level := v\<rparr>) (socket_clients s)"
    using Some by (simp add: client_volume_set_def log_call_def)
  ultimately show ?thesis
    using assms by (rule keys_are_ids_update [rotated])
qed

text \<open>
  A connect keeps the registry in shape: sessions stay stored under their own ids, and the
  table of virtual providers is untouched.
\<close>

lemma virtual_providers_fold_hpu [simp]:
  "virtual_providers (fold (handle_player_update e) cs s) = virtual_providers s"
  by (induction cs arbitrary: s) simp_all

lemma virtual_providers_client_power [simp]:
  "virtual_providers (client_power k v s) = virtual_providers s"
  by (simp add: client_power_def log_call_def split: option.splits)

lemma virtual_providers_client_volume_set [simp]:
  "virtual_providers (client_volume_set k v s) = virtual_providers s"
  by (simp add: client_volume_set_def log_call_def split: option.splits)

lemma connect_keeps_registry_shape:
  assumes "keys_are_ids s"
  shows "keys_are_ids (handle_connected e client s) \<and>
         virtual_providers (handle_connected e client s) = virtual_providers s"
proof -
  define pid where "pid = SlimClient.player_id client"
  define s1 where "s1 = (case map_of (socket_clients s) pid of
                  None \<Rightarrow> s
                | Some existing \<Rightarrow>
                    (log_call (SlimClient.player_id existing) Call_disconnect s)
                      \<lparr>socket_clients := AList.delete pid (socket_clients s),
                       pending_disconnects := pending_disconnects s @ [existing]\<rparr>)"
  define s2 where "s2 = s1\<lparr>socket_clients := AList.update pid client (socket_clients s1)\<rparr>"
  define s4 where "s4 = fold (handle_player_update e)
                 (filter (\<lambda>item. SlimClient.player_id item \<noteq> pid)
                    (map snd (socket_clients (handle_player_update e client s2))))
                 (handle_player_update e client s2)"
  have "set (socket_clients s1) \<subseteq> set (socket_clients s)"
    by (auto simp add: s1_def log_call_def AList.delete_eq split: option.splits)
  with assms have k1: "keys_are_ids s1"
    by (auto simp add: keys_are_ids_def)
  have k2: "keys_are_ids s2"
    by (rule keys_are_ids_update [OF k1, of client pid]) (simp_all add: pid_def s2_def)
  have k4: "keys_are_ids s4"
    using k2 by (simp add: keys_are_ids_def s4_def)
  have v4: "virtual_providers s4 = virtual_providers s"
    by (simp add: s4_def s2_def s1_def log_call_def split: option.splits)
  have "handle_connected e client s =
          (case (case cache s4 (cache_key pid) of
               Some last_state \<Rightarrow> (fst last_state, snd last_state)
             | None \<Rightarrow> (False, DEFAULT_PLAYER_VOLUME)) of
             (init_power, init_volume) \<Rightarrow>
                client_volume_set pid init_volume (client_power pid init_power s4))"
    unfolding handle_connected_def Let_def s4_def s2_def s1_def pid_def ..
  then obtain ip iv where "handle_connected e client s = client_volume_set pid iv (client_power pid ip s4)"
    by (cases "case cache s4 (cache_key pid) of
               Some last_state \<Rightarrow> (fst last_state, snd last_state)
             | None \<Rightarrow> (False, DEFAULT_PLAYER_VOLUME)") simp
  then show ?thesis
    using k4 v4 by (simp add: keys_are_ids_client_power keys_are_ids_client_volume_set)
qed

lemma pending_disconnects_hpu [simp]:
  "pending_disconnects (handle_player_update e c s) = pending_disconnects s"
  by (simp add: handle_player_update_def Let_def modify_player_def add_notice_def
        split: option.splits prod.splits)

lemma pending_disconnects_fold_hpu [simp]:
  "pending_disconnects (fold (handle_player_update e) cs s) = pending_disconnects s"
  by (induction cs arbitrary: s) simp_all

lemma pending_disconnects_client_power [simp]:
  "pending_disconnects (client_power k v s) = pending_disconnects s"
  by (simp add: client_power_def log_call_def split: option.splits)

lemma pending_disconnects_client_volume_set [simp]:
  "pending_disconnects (client_volume_set k v s) = pending_disconnects s"
  by (simp add: client_volume_set_def log_call_def split: option.splits)

lemma connect_pending_disconnects:
  "pending_disconnects (handle_connected e client s) =
     pending_disconnects s @
       (case map_of (socket_clients s) (SlimClient.player_id client) of
          None \<Rightarrow> [] | Some existing \<Rightarrow> [existing])"
proof -
  define pid where "pid = SlimClient.player_id client"
  define s1 where "s1 = (case map_of (socket_clients s) pid of
                  None \<Rightarrow> s
                | Some existing \<Rightarrow>
                    (log_call (SlimClient.player_id existing) Call_disconnect s)
                      \<lparr>socket_clients := AList.delete pid (socket_clients s),
                       pending_disconnects := pending_disconnects s @ [existing]\<rparr>)"
  define s2 where "s2 = s1\<lparr>socket_clients := AList.update pid client (socket_clients s1)\<rparr>"
  define s4 where "s4 = fold (handle_player_update e)
                 (filter (\<lambda>item. SlimClient.player_id item \<noteq> pid)
                    (map snd (socket_clients (handle_player_update e client s2))))
                 (handle_player_update e client s2)"
  have p4: "pending_disconnects s4 = pending_disconnects s @
       (case map_of (socket_clients s) pid of None \<Rightarrow> [] | Some existing \<Rightarrow> [existing])"
    by (simp add: s4_def s2_def s1_def log_call_def split: option.splits)
  have "handle_connected e client s =
          (case (case cache s4 (cache_key pid) of
               Some last_state \<Rightarrow> (fst last_state, snd last_state)
             | None \<Rightarrow> (False, DEFAULT_PLAYER_VOLUME)) of
             (init_power, init_volume) \<Rightarrow>
                client_volume_set pid init_volume (client_power pid init_power s4))"
    unfolding handle_connected_def Let_def s4_def s2_def s1_def pid_def ..
  then obtain ip iv where "handle_connected e client s = client_volume_set pid iv (client_power pid ip s4)"
    by (cases "case cache s4 (cache_key pid) of
               Some last_state \<Rightarrow> (fst last_state, snd last_state)
             | None \<Rightarrow> (False, DEFAULT_PLAYER_VOLUME)") simp
  then show ?thesis
    using p4 by (simp add: pid_def)
qed

text \<open>
  Claim C5, as stated, fails. After \<open>b\<close> has disconnected, \<open>a\<close> is the only connected
  session and still lists \<open>b\<close>; after \<open>c\<close> has connected, \<open>a\<close> lists \<open>c\<close> only,
  although \<open>b\<close> is still in the player table, with its old list. When \<open>a\<close> connects
  again over its old session, the evicted session's disconnect task removes the new session,
  and \<open>b\<close> lists an id that is no longer connected. Under a virtual provider whose update
  callback overwrites \<open>can_sync_with\<close>, the field is wrong right after the connects.
\<close>

theorem can_sync_with_stale_counterexample:
  "can_sync_inv two_connected \<and>
   \<not> can_sync_inv after_disconnect \<and>
   map fst (socket_clients after_disconnect) = [''a''] \<and>
   map_option can_sync_with (players after_disconnect ''a'') = Some [''b''] \<and>
   map fst (socket_clients after_reconnect) = [''a'', ''c''] \<and>
   players after_reconnect ''b'' \<noteq> None \<and>
   map_option can_sync_with (players after_reconnect ''a'') = Some [''c''] \<and>
   map_option can_sync_with (players after_reconnect ''b'') = Some [''a''] \<and>
   map SlimClient.player_id (pending_disconnects reconnected) = [''a''] \<and>
   map fst (socket_clients after_eviction) = [''b''] \<and>
   map_option can_sync_with (players after_eviction ''b'') = Some [''a''] \<and>
   \<not> can_sync_inv after_eviction \<and>
   keys_are_ids two_connected_overridden \<and>
   map fst (socket_clients two_connected_overridden) = [''a'', ''b''] \<and>
   map_option can_sync_with (players two_connected_overridden ''a'') = Some [] \<and>
   \<not> can_sync_inv two_connected_overridden"
  unfolding keys_are_ids_def by code_simp

text \<open>
  Claim C5, amended: provided that sessions are stored under their own ids and that the
  callbacks of virtual providers leave a player's id and \<open>can_sync_with\<close> alone, after a
  client connects under an id that had no session (so that no incumbent is evicted and no
  disconnect task is left pending), every player with a connected session lists in
  \<open>can_sync_with\<close> exactly the ids of the other connected sessions; and a player update
  keeps this true.
\<close>

theorem can_sync_with_after_connect:
  assumes "keys_are_ids s" and "cb_ok s"
  shows "(map_of (socket_clients s) (SlimClient.player_id client) = None \<longrightarrow>
            can_sync_inv (handle_connected e client s) \<and>
            pending_disconnects (handle_connected e client s) = pending_disconnects s) \<and>
         (can_sync_inv s \<longrightarrow> can_sync_inv (handle_player_update e c s))"
  using connect_can_sync_inv [OF assms] hpu_can_sync_inv [OF assms]
  by (simp add: connect_pending_disconnects)

theorem can_sync_with_after_connect_witness:
  "keys_are_ids (handle_connected env0 (mk_client ''a'' SLIM_STOPPED) prov0) \<and>
   cb_ok (handle_connected env0 (mk_client ''a'' SLIM_STOPPED) prov0) \<and>
   map_of (socket_clients (handle_connected env0 (mk_client ''a'' SLIM_STOPPED) prov0))
     (SlimClient.player_id (mk_client ''b'' SLIM_STOPPED)) = None \<and>
   can_sync_inv two_connected \<and>
   pending_disconnects two_connected = [] \<and>
   connected_ids two_connected = {''a'', ''b''} \<and>
   map_option can_sync_with (players two_connected ''a'') = Some [''b''] \<and>
   can_sync_inv (handle_player_update env0 (mk_client ''a'' SLIM_PLAYING) two_connected)"
proof -
  let ?s1 = "handle_connected env0 (mk_client ''a'' SLIM_STOPPED) prov0"
  have k0: "keys_are_ids prov0"
    by (simp add: keys_are_ids_def prov0_def)
  have r1: "keys_are_ids ?s1 \<and> virtual_providers ?s1 = virtual_providers prov0"
    by (rule connect_keeps_registry_shape [OF k0])
  then have k: "keys_are_ids ?s1" and c: "cb_ok ?s1"
    by (simp_all add: cb_ok_def prov0_def)
  have r2: "keys_are_ids two_connected \<and> virtual_providers two_connected = virtual_providers ?s1"
    unfolding two_connected_def by (rule connect_keeps_registry_shape [OF k])
  with r1 have k2: "keys_are_ids two_connected" and c2: "cb_ok two_connected"
    by (simp_all add: cb_ok_def prov0_def)
  have n: "map_of (socket_clients ?s1) (SlimClient.player_id (mk_client ''b'' SLIM_STOPPED)) = None"
    "pending_disconnects ?s1 = []"
    by code_simp+
  have v: "connected_ids two_connected = {''a'', ''b''}"
    "map_option can_sync_with (players two_connected ''a'') = Some [''b'']"
    unfolding connected_ids_def by code_simp+
  have i: "can_sync_inv two_connected \<and> pending_disconnects two_connected = []"
    using can_sync_with_after_connect [OF k c, of "mk_client ''b'' SLIM_STOPPED" env0] n
    by (simp add: two_connected_def)
  have u: "can_sync_inv (handle_player_update env0 (mk_client ''a'' SLIM_PLAYING) two_connected)"
    using can_sync_with_after_connect [OF k2 c2, of _ env0 "mk_client ''a'' SLIM_PLAYING"] i
    by simp
  from k c n v i u show ?thesis by simp
qed

section \<open>Reported mute state\<close>

text \<open>
  Claim C10, as stated, fails: the update callback of a virtual provider runs after
  \<open>volume_muted\<close> has been written and before the update is forwarded. With a callback that
  sets the field, a powered-off session is reported as muted.
\<close>

theorem volume_muted_overridden_counterexample:
  "SlimClient.powered powered_off = False \<and>
   map_option volume_muted
     (players (handle_player_update env0 powered_off overriding_provider) ''a'') = Some True"
  by code_simp

text \<open>
  Claim C10, amended: for a session whose device model has no virtual provider, or one whose
  register callback keeps the player's id and whose update callback keeps \<open>volume_muted\<close>,
  the player that \<^verbatim>\<open>_handle_player_update\<close> forwards to the player manager has
  \<open>volume_muted\<close> equal to the conjunction of the session's \<open>powered\<close> and \<open>muted\<close>
  flags, so a powered-off player is not reported as muted.
\<close>

theorem volume_muted_reported:
  assumes "\<forall>cbs. virtual_providers s (device_model c) = Some cbs \<longrightarrow>
             (\<forall>p. Player.player_id (fst cbs p) = Player.player_id p) \<and>
             (\<forall>p. volume_muted (snd cbs p) = volume_muted p)"
  shows "\<exists>p. players (handle_player_update e c s) (SlimClient.player_id c) = Some p \<and>
             volume_muted p = (SlimClient.powered c \<and> SlimClient.muted c) \<and>
             (\<not> SlimClient.powered c \<longrightarrow> \<not> volume_muted p) \<and>
             notices (handle_player_update e c s)
               = notices s @ [Players_update (SlimClient.player_id c)]"
  using assms
  by (auto simp add: handle_player_update_def Let_def modify_player_def add_notice_def
        split: option.splits prod.splits)

theorem volume_muted_reported_witness:
  "virtual_providers prov0 (device_model ((mk_client ''a'' SLIM_STOPPED)\<lparr>SlimClient.powered := False, muted := True\<rparr>)) = None \<and>
   map_option volume_muted
     (players (handle_player_update env0
                ((mk_client ''a'' SLIM_STOPPED)\<lparr>SlimClient.powered := False, muted := True\<rparr>) prov0) ''a'')
     = Some False"
proof -
  have h: "virtual_providers prov0 (device_model ((mk_client ''a'' SLIM_STOPPED)\<lparr>SlimClient.powered := False, muted := True\<rparr>)) = None"
    by (simp add: prov0_def)
  have i: "SlimClient.player_id ((mk_client ''a'' SLIM_STOPPED)\<lparr>SlimClient.powered := False, muted := True\<rparr>) = ''a''"
    "SlimClient.powered ((mk_client ''a'' SLIM_STOPPED)\<lparr>SlimClient.powered := False, muted := True\<rparr>) = False"
    by (simp_all add: mk_client_def)
  show ?thesis
    using h i volume_muted_reported [where s = prov0 and e = env0
        and c = "(mk_client ''a'' SLIM_STOPPED)\<lparr>SlimClient.powered := False, muted := True\<rparr>"]
    by auto
qed

section \<open>Drift controller\<close>

text \<open>
  What \<^verbatim>\<open>_handle_client_sync\<close> does once a heartbeat passes its guards: the follower has
  a leader with a session, both sessions are playing, no backoff is pending and the stream
  job exists.
\<close>

lemma handle_client_sync_active:
  assumes "players s pid = Some player" and "synced_to player = Some m" and "m \<noteq> []"
    and "map_of (socket_clients s) m = Some sync_master"
    and "SlimClient.state sync_master = SLIM_PLAYING"
    and "SlimClient.player_id client = pid" and "SlimClient.state client = SLIM_PLAYING"
    and "\<not> backing_off e s pid"
    and "multi_client_jobs e (get_active_queue e pid) = Some stream_job"
  shows "handle_client_sync e client s =
     (let ring3 = appended_ring e stream_job sync_master client (stored_ring s pid);
          avg_diff = fmean (map diff ring3)
      in if length ring3 < 4 \<or> \<bar>avg_diff\<bar> < 10 then (Inr (), set_ring pid ring3 s)
         else if avg_diff > 0
         then (Inr (), (set_ring pid [] s)
                 \<lparr>do_not_resync_before := (do_not_resync_before s)(pid \<mapsto> now e + 2),
                  tasks := tasks s @ [Task_skip_over pid \<bar>avg_diff\<bar>]\<rparr>)
         else (Inr (), (set_ring pid [] s)
                 \<lparr>do_not_resync_before :=
                    (do_not_resync_before s)(pid \<mapsto> now e + \<bar>avg_diff\<bar> / 1000 + 2),
                  tasks := tasks s @ [Task_pause_for pid \<bar>avg_diff\<bar>]\<rparr>))"
  using assms
  by (simp add: handle_client_sync_def Let_def MIN_REQ_PLAYPOINTS_def MIN_DEVIATION_ADJUST_def)

lemmas drift_defs =
  handle_client_sync_def appended_ring_def invalidated_def current_playpoint_def
  deque_append_def stored_ring_def set_ring_def backing_off_def fmean_def
  get_corrected_elapsed_milliseconds_def MIN_REQ_PLAYPOINTS_def MIN_DEVIATION_ADJUST_def
  drift_state_def follower_def pp_def

lemma floor_41_4: "\<lfloor>41 / 4 :: rat\<rfloor> = 10"
  by (rule floor_unique) simp_all

text \<open>
  Claim C3, as stated, fails in the length of the skip: with diffs 10, 10, 10 and 11 the mean is
  10.25; the task is created with 10.25, and the \<^verbatim>\<open>strm a\<close> frame it sends carries
  \<^verbatim>\<open>int(10.25)\<close>, which is 10.
\<close>

theorem drift_truncation_counterexample:
  "tasks (snd (handle_client_sync env0 (follower 1000)
                 (drift_state 1011 1000 [pp 97 10, pp 98 10, pp 99 10])))
     = [Task_skip_over ''b'' (41 / 4)] \<and>
   frames_sent (snd (run_task (Task_skip_over ''b'' (41 / 4))
                 (drift_state 1011 1000 [pp 97 10, pp 98 10, pp 99 10]))) ''b''
     = [Strm CHR ''a'' 10] \<and>
   (of_int 10 :: rat) \<noteq> 41 / 4"
  by (simp add: drift_defs example_defs skip_over_def py_int_def log_call_def frames_sent_def
        Let_def floor_41_4)

text \<open>
  Claim C3, amended. For a follower heartbeat that passes the guards, let \<open>ring\<close> be the
  follower's ring after invalidation and after the current playpoint has been appended (at
  most 4 entries), and \<open>mean\<close> the mean of its diffs. If the ring holds fewer than 4
  playpoints, or \<open>|mean| < 10\<close>, the ring is stored and nothing else changes. If
  \<open>mean \<ge> 10\<close> the ring is cleared, the backoff is \<open>now + 2\<close> and a skip-ahead task for
  \<open>|mean|\<close> is created, whose frame is \<^verbatim>\<open>strm a\<close> with \<open>|mean|\<close> rounded down to whole
  milliseconds. If \<open>mean \<le> -10\<close> the ring is cleared, the backoff is
  \<open>now + (|mean|/1000 + 2)\<close> and a pause task for \<open>|mean|\<close> is created, whose frame is
  \<^verbatim>\<open>strm p\<close> with \<open>|mean|\<close> rounded down.
\<close>

theorem drift_correction:
  assumes "players s pid = Some player" and "synced_to player = Some m" and "m \<noteq> []"
    and "map_of (socket_clients s) m = Some sync_master"
    and "SlimClient.state sync_master = SLIM_PLAYING"
    and "SlimClient.player_id client = pid" and "SlimClient.state client = SLIM_PLAYING"
    and "\<not> backing_off e s pid"
    and "multi_client_jobs e (get_active_queue e pid) = Some stream_job"
    and "ring = appended_ring e stream_job sync_master client (stored_ring s pid)"
    and "mean = fmean (map diff ring)"
  shows "length ring = min 4 (length (invalidated e stream_job (stored_ring s pid)) + 1)
       \<and> (length ring < 4 \<or> \<bar>mean\<bar> < 10 \<longrightarrow>
            handle_client_sync e client s = (Inr (), set_ring pid ring s))
       \<and> (4 \<le> length ring \<and> 10 \<le> mean \<longrightarrow>
            handle_client_sync e client s =
              (Inr (), (set_ring pid [] s)
                 \<lparr>do_not_resync_before := (do_not_resync_before s)(pid \<mapsto> now e + 2),
                  tasks := tasks s @ [Task_skip_over pid \<bar>mean\<bar>]\<rparr>)
            \<and> (\<forall>t c. map_of (socket_clients t) pid = Some c \<longrightarrow>
                  run_task (Task_skip_over pid \<bar>mean\<bar>) t =
                    (Inr (), log_call (SlimClient.player_id c)
                               (Call_send_strm CHR ''a'' \<lfloor>\<bar>mean\<bar>\<rfloor>) t)))
       \<and> (4 \<le> length ring \<and> mean \<le> - 10 \<longrightarrow>
            handle_client_sync e client s =
              (Inr (), (set_ring pid [] s)
                 \<lparr>do_not_resync_before :=
                    (do_not_resync_before s)(pid \<mapsto> now e + (\<bar>mean\<bar> / 1000 + 2)),
                  tasks := tasks s @ [Task_pause_for pid \<bar>mean\<bar>]\<rparr>)
            \<and> (\<forall>t c. map_of (socket_clients t) pid = Some c \<longrightarrow>
                  run_task (Task_pause_for pid \<bar>mean\<bar>) t =
                    (Inr (), log_call (SlimClient.player_id c)
                               (Call_send_strm CHR ''p'' \<lfloor>\<bar>mean\<bar>\<rfloor>) t)))"
proof -
  note h = handle_client_sync_active [OF assms(1-9)]
  have a: "length ring < 4 \<or> \<bar>mean\<bar> < 10 \<Longrightarrow>
            handle_client_sync e client s = (Inr (), set_ring pid ring s)"
    unfolding h Let_def assms(10,11) by auto
  have b: "handle_client_sync e client s =
              (Inr (), (set_ring pid [] s)
                 \<lparr>do_not_resync_before := (do_not_resync_before s)(pid \<mapsto> now e + 2),
                  tasks := tasks s @ [Task_skip_over pid \<bar>mean\<bar>]\<rparr>)"
    if "4 \<le> length ring" "10 \<le> mean"
    using that unfolding h Let_def assms(10,11) by auto
  have c: "handle_client_sync e client s =
              (Inr (), (set_ring pid [] s)
                 \<lparr>do_not_resync_before :=
                    (do_not_resync_before s)(pid \<mapsto> now e + (\<bar>mean\<bar> / 1000 + 2)),
                  tasks := tasks s @ [Task_pause_for pid \<bar>mean\<bar>]\<rparr>)"
    if "4 \<le> length ring" "mean \<le> - 10"
    using that unfolding h Let_def assms(10,11) by (auto simp add: algebra_simps)
  have d: "\<forall>t c. map_of (socket_clients t) pid = Some c \<longrightarrow>
                  run_task (Task_skip_over pid \<bar>mean\<bar>) t =
                    (Inr (), log_call (SlimClient.player_id c)
                               (Call_send_strm CHR ''a'' \<lfloor>\<bar>mean\<bar>\<rfloor>) t)"
    by (simp add: skip_over_def py_int_def)
  have f: "\<forall>t c. map_of (socket_clients t) pid = Some c \<longrightarrow>
                  run_task (Task_pause_for pid \<bar>mean\<bar>) t =
                    (Inr (), log_call (SlimClient.player_id c)
                               (Call_send_strm CHR ''p'' \<lfloor>\<bar>mean\<bar>\<rfloor>) t)"
    by (simp add: pause_for_def py_int_def)
  have l: "length ring = min 4 (length (invalidated e stream_job (stored_ring s pid)) + 1)"
    by (simp add: assms(10) appended_ring_def deque_append_def MIN_REQ_PLAYPOINTS_def)
  from l a b c d f show ?thesis by blast
qed

theorem drift_correction_witness:
  "handle_client_sync env0 (follower 1000)
     (drift_state 1030 1000 [pp 97 30, pp 98 30, pp 99 30])
     = (Inr (), (set_ring ''b'' [] (drift_state 1030 1000 [pp 97 30, pp 98 30, pp 99 30]))
          \<lparr>do_not_resync_before := [''b'' \<mapsto> 102],
           tasks := [Task_skip_over ''b'' 30]\<rparr>) \<and>
   sent (snd (run_task (Task_skip_over ''b'' 30)
                (drift_state 1030 1000 [pp 97 30, pp 98 30, pp 99 30]))) ''b''
     = [Call_send_strm CHR ''a'' 30] \<and>
   handle_client_sync env0 (follower 1000)
     (drift_state 1009 1000 [pp 97 9, pp 98 9, pp 99 9])
     = (Inr (), set_ring ''b'' [pp 97 9, pp 98 9, pp 99 9, pp 100 9]
                  (drift_state 1009 1000 [pp 97 9, pp 98 9, pp 99 9])) \<and>
   handle_client_sync env0 (follower 1040)
     (drift_state 1000 1040 [pp 97 (- 40), pp 98 (- 40), pp 99 (- 40)])
     = (Inr (), (set_ring ''b'' []
                   (drift_state 1000 1040 [pp 97 (- 40), pp 98 (- 40), pp 99 (- 40)]))
          \<lparr>do_not_resync_before := [''b'' \<mapsto> 2551 / 25],
           tasks := [Task_pause_for ''b'' 40]\<rparr>) \<and>
   sent (snd (run_task (Task_pause_for ''b'' 40)
                (drift_state 1000 1040 [pp 97 (- 40), pp 98 (- 40), pp 99 (- 40)]))) ''b''
     = [Call_send_strm CHR ''p'' 40]"
proof -
  let ?s = "drift_state 1030 1000 [pp 97 30, pp 98 30, pp 99 30]"
  let ?t = "drift_state 1009 1000 [pp 97 9, pp 98 9, pp 99 9]"
  let ?u = "drift_state 1000 1040 [pp 97 (- 40), pp 98 (- 40), pp 99 (- 40)]"
  let ?job = "\<lparr>job_id = ''job1'', pending = False, running = True,
                client_seconds_skipped = Map.empty\<rparr>"
  let ?ma = "(mk_client ''a'' SLIM_PLAYING)\<lparr>elapsed_milliseconds := 1030\<rparr>"
  let ?mb = "(mk_client ''a'' SLIM_PLAYING)\<lparr>elapsed_milliseconds := 1009\<rparr>"
  let ?mc = "(mk_client ''a'' SLIM_PLAYING)\<lparr>elapsed_milliseconds := 1000\<rparr>"
  have h: "players ?s ''b'' = Some ((mk_player ''b'')\<lparr>synced_to := Some ''a''\<rparr>)"
    "synced_to ((mk_player ''b'')\<lparr>synced_to := Some ''a''\<rparr>) = Some ''a''"
    "''a'' \<noteq> []"
    "map_of (socket_clients ?s) ''a'' = Some ?ma"
    "SlimClient.state ?ma = SLIM_PLAYING"
    "SlimClient.player_id (follower 1000) = ''b''"
    "SlimClient.state (follower 1000) = SLIM_PLAYING"
    "\<not> backing_off env0 ?s ''b''"
    "multi_client_jobs env0 (get_active_queue env0 ''b'') = Some ?job"
    "[pp 97 30, pp 98 30, pp 99 30, pp 100 30]
       = appended_ring env0 ?job ?ma (follower 1000) (stored_ring ?s ''b'')"
    "30 = fmean (map diff [pp 97 30, pp 98 30, pp 99 30, pp 100 30])"
    by (simp_all add: drift_defs example_defs)
  have k: "players ?t ''b'' = Some ((mk_player ''b'')\<lparr>synced_to := Some ''a''\<rparr>)"
    "synced_to ((mk_player ''b'')\<lparr>synced_to := Some ''a''\<rparr>) = Some ''a''"
    "''a'' \<noteq> []"
    "map_of (socket_clients ?t) ''a'' = Some ?mb"
    "SlimClient.state ?mb = SLIM_PLAYING"
    "SlimClient.player_id (follower 1000) = ''b''"
    "SlimClient.state (follower 1000) = SLIM_PLAYING"
    "\<not> backing_off env0 ?t ''b''"
    "multi_client_jobs env0 (get_active_queue env0 ''b'') = Some ?job"
    "[pp 97 9, pp 98 9, pp 99 9, pp 100 9]
       = appended_ring env0 ?job ?mb (follower 1000) (stored_ring ?t ''b'')"
    "9 = fmean (map diff [pp 97 9, pp 98 9, pp 99 9, pp 100 9])"
    by (simp_all add: drift_defs example_defs)
  have p: "players ?u ''b'' = Some ((mk_player ''b'')\<lparr>synced_to := Some ''a''\<rparr>)"
    "synced_to ((mk_player ''b'')\<lparr>synced_to := Some ''a''\<rparr>) = Some ''a''"
    "''a'' \<noteq> []"
    "map_of (socket_clients ?u) ''a'' = Some ?mc"
    "SlimClient.state ?mc = SLIM_PLAYING"
    "SlimClient.player_id (follower 1040) = ''b''"
    "SlimClient.state (follower 1040) = SLIM_PLAYING"
    "\<not> backing_off env0 ?u ''b''"
    "multi_client_jobs env0 (get_active_queue env0 ''b'') = Some ?job"
    "[pp 97 (- 40), pp 98 (- 40), pp 99 (- 40), pp 100 (- 40)]
       = appended_ring env0 ?job ?mc (follower 1040) (stored_ring ?u ''b'')"
    "- 40 = fmean (map diff [pp 97 (- 40), pp 98 (- 40), pp 99 (- 40), pp 100 (- 40)])"
    by (simp_all add: drift_defs example_defs)
  have d: "do_not_resync_before ?s = Map.empty" "tasks ?s = []" "now env0 = 100"
    "do_not_resync_before ?u = Map.empty" "tasks ?u = []"
    "map_of (socket_clients ?s) ''b'' = Some (follower 1000)"
    "map_of (socket_clients ?u) ''b'' = Some (follower 1040)"
    "sent ?s ''b'' = []" "sent ?u ''b'' = []"
    by (simp_all add: drift_defs example_defs)
  have r1: "handle_client_sync env0 (follower 1000) ?s
     = (Inr (), (set_ring ''b'' [] ?s)
          \<lparr>do_not_resync_before := [''b'' \<mapsto> 102], tasks := [Task_skip_over ''b'' 30]\<rparr>)"
    using drift_correction [OF h] by (simp add: d)
  have r2: "sent (snd (run_task (Task_skip_over ''b'' 30) ?s)) ''b'' = [Call_send_strm CHR ''a'' 30]"
    using drift_correction [OF h] d(6) by (simp add: d(8) log_call_def follower_def mk_client_def)
  have r3: "handle_client_sync env0 (follower 1000) ?t
     = (Inr (), set_ring ''b'' [pp 97 9, pp 98 9, pp 99 9, pp 100 9] ?t)"
    using drift_correction [OF k] by simp
  have r4: "handle_client_sync env0 (follower 1040) ?u
     = (Inr (), (set_ring ''b'' [] ?u)
          \<lparr>do_not_resync_before := [''b'' \<mapsto> 2551 / 25], tasks := [Task_pause_for ''b'' 40]\<rparr>)"
    using drift_correction [OF p] by (simp add: d)
  have r5: "sent (snd (run_task (Task_pause_for ''b'' 40) ?u)) ''b'' = [Call_send_strm CHR ''p'' 40]"
    using drift_correction [OF p] d(7) by (simp add: d(9) log_call_def follower_def mk_client_def)
  from r1 r2 r3 r4 r5 show ?thesis by simp
qed

text \<open>
  Claim C4, as stated, fails: when the last playpoint is 20 seconds old, or belongs to another
  stream job, the ring afterwards is not empty; it holds the playpoint of this heartbeat.
\<close>

theorem stale_ring_counterexample:
  "sync_playpoints (snd (handle_client_sync env0 (follower 1000)
                           (drift_state 1000 1000 [pp 80 0]))) ''b''
     = Some [pp 100 0] \<and>
   sync_playpoints (snd (handle_client_sync env0 (follower 1000)
                           (drift_state 1000 1000
                              [\<lparr>timestamp = 99, sync_job_id = ''job0'', diff = 0\<rparr>]))) ''b''
     = Some [pp 100 0]"
  by (simp add: drift_defs example_defs Let_def)

text \<open>
  Claim C4, amended: on a follower heartbeat that passes the guards, if the most recent prior
  playpoint is older than 10 seconds or its job id differs from the current stream job's, the
  ring is cleared and then restarted with the playpoint of this heartbeat as its only entry;
  no correction is made on that heartbeat (no task, no backoff).
\<close>

theorem stale_ring_restarted:
  assumes "players s pid = Some player" and "synced_to player = Some m" and "m \<noteq> []"
    and "map_of (socket_clients s) m = Some sync_master"
    and "SlimClient.state sync_master = SLIM_PLAYING"
    and "SlimClient.player_id client = pid" and "SlimClient.state client = SLIM_PLAYING"
    and "\<not> backing_off e s pid"
    and "multi_client_jobs e (get_active_queue e pid) = Some stream_job"
    and "stored_ring s pid \<noteq> []"
    and "now e - timestamp (last (stored_ring s pid)) > 10
         \<or> sync_job_id (last (stored_ring s pid)) \<noteq> job_id stream_job"
  shows "handle_client_sync e client s =
           (Inr (), set_ring pid [current_playpoint e stream_job sync_master client] s)
       \<and> tasks (snd (handle_client_sync e client s)) = tasks s
       \<and> do_not_resync_before (snd (handle_client_sync e client s)) = do_not_resync_before s"
proof -
  have "invalidated e stream_job (stored_ring s pid) = []"
    using assms(10,11) by (auto simp add: invalidated_def Let_def)
  then have r: "appended_ring e stream_job sync_master client (stored_ring s pid)
                  = [current_playpoint e stream_job sync_master client]"
    by (simp add: appended_ring_def deque_append_def MIN_REQ_PLAYPOINTS_def)
  show ?thesis
    unfolding handle_client_sync_active [OF assms(1-9)] r
    by (simp add: set_ring_def)
qed

theorem stale_ring_restarted_witness:
  "stored_ring (drift_state 1000 1000 [pp 80 0]) ''b'' \<noteq> [] \<and>
   now env0 - timestamp (last (stored_ring (drift_state 1000 1000 [pp 80 0]) ''b'')) > 10 \<and>
   handle_client_sync env0 (follower 1000) (drift_state 1000 1000 [pp 80 0])
     = (Inr (), set_ring ''b'' [pp 100 0] (drift_state 1000 1000 [pp 80 0]))"
proof -
  let ?s = "drift_state 1000 1000 [pp 80 0]"
  let ?job = "\<lparr>job_id = ''job1'', pending = False, running = True,
                client_seconds_skipped = Map.empty\<rparr>"
  have h: "players ?s ''b'' = Some ((mk_player ''b'')\<lparr>synced_to := Some ''a''\<rparr>)"
    "synced_to ((mk_player ''b'')\<lparr>synced_to := Some ''a''\<rparr>) = Some ''a''"
    "''a'' \<noteq> []"
    "map_of (socket_clients ?s) ''a''
       = Some ((mk_client ''a'' SLIM_PLAYING)\<lparr>elapsed_milliseconds := 1000\<rparr>)"
    "SlimClient.state ((mk_client ''a'' SLIM_PLAYING)\<lparr>elapsed_milliseconds := 1000\<rparr>)
       = SLIM_PLAYING"
    "SlimClient.player_id (follower 1000) = ''b''"
    "SlimClient.state (follower 1000) = SLIM_PLAYING"
    "\<not> backing_off env0 ?s ''b''"
    "multi_client_jobs env0 (get_active_queue env0 ''b'') = Some ?job"
    "stored_ring ?s ''b'' \<noteq> []"
    "now env0 - timestamp (last (stored_ring ?s ''b'')) > 10
       \<or> sync_job_id (last (stored_ring ?s ''b'')) \<noteq> job_id ?job"
    by (simp_all add: drift_defs example_defs)
  have c: "current_playpoint env0 ?job
             ((mk_client ''a'' SLIM_PLAYING)\<lparr>elapsed_milliseconds := 1000\<rparr>) (follower 1000)
           = pp 100 0"
    by (simp add: drift_defs example_defs)
  have g: "now env0 - timestamp (last (stored_ring ?s ''b'')) > 10"
    by (simp add: drift_defs example_defs)
  show ?thesis
    using h(10) g stale_ring_restarted [OF h] by (simp add: c)
qed

section \<open>Buffer-coordinated start\<close>

text \<open>
  The polling loop returns only if it was never entered or if some pass does not find a
  session lagging behind; \<open>count\<close> never changes, so there is no time-out.
\<close>

lemma wait_buffer_ready_returns:
  assumes "wait_buffer_ready world pid count i = Some r"
  shows "40 \<le> count \<or> (\<exists>j\<ge>i. childs_all_ready (world j) pid \<noteq> Inr False)"
proof (rule wait_buffer_ready.raw_induct
    [where P = "\<lambda>world pid count i r.
        40 \<le> count \<or> (\<exists>j\<ge>i. childs_all_ready (world j) pid \<noteq> Inr False)",
     OF _ assms])
  fix wait :: "(nat \<Rightarrow> prov) \<Rightarrow> string \<Rightarrow> nat \<Rightarrow> nat \<Rightarrow> (nat \<times> unit result) option"
  fix world pid count i r
  assume IH: "\<And>world pid count i r. wait world pid count i = Some r \<Longrightarrow>
                40 \<le> count \<or> (\<exists>j\<ge>i. childs_all_ready (world j) pid \<noteq> Inr False)"
  assume eq: "(if count < 40
      then (case childs_all_ready (world i) pid of
              Inl err \<Rightarrow> Some (i, Inl err)
            | Inr ready \<Rightarrow>
                if ready then Some (i, Inr ())
                else wait world pid count (i + 1))
      else Some (i, Inr ())) = Some r"
  show "40 \<le> count \<or> (\<exists>j\<ge>i. childs_all_ready (world j) pid \<noteq> Inr False)"
  proof (cases "count < 40")
    case False
    then show ?thesis by simp
  next
    case True
    show ?thesis
    proof (cases "childs_all_ready (world i) pid = Inr False")
      case False
      then show ?thesis by auto
    next
      case ready: True
      with True eq have "wait world pid count (i + 1) = Some r" by simp
      from IH [OF this] True obtain j where "i + 1 \<le> j"
        and "childs_all_ready (world j) pid \<noteq> Inr False" by auto
      then have "i \<le> j \<and> childs_all_ready (world j) pid \<noteq> Inr False" by simp
      then show ?thesis by blast
    qed
  qed
qed

lemma wait_buffer_ready_never:
  assumes "\<forall>j. childs_all_ready (world j) pid = Inr False"
  shows "wait_buffer_ready world pid 0 0 = None"
proof (cases "wait_buffer_ready world pid 0 0")
  case None
  then show ?thesis .
next
  case (Some r)
  from wait_buffer_ready_returns [OF this] assms show ?thesis by simp
qed

text \<open>When the \<open>n\<close>-th pass is the first to find every session ready, the loop ends there.\<close>

lemma wait_buffer_ready_at:
  assumes "childs_all_ready (world (i + n)) pid = Inr True"
    and "\<forall>j<n. childs_all_ready (world (i + j)) pid = Inr False"
  shows "wait_buffer_ready world pid 0 i = Some (i + n, Inr ())"
  using assms
proof (induction n arbitrary: i)
  case 0
  then show ?case by (simp add: wait_buffer_ready.simps)
next
  case (Suc n)
  from Suc.prems(2) have first: "childs_all_ready (world i) pid = Inr False"
    by (metis add.right_neutral zero_less_Suc)
  have "childs_all_ready (world (Suc i + n)) pid = Inr True"
    using Suc.prems(1) by simp
  moreover have "\<forall>j<n. childs_all_ready (world (Suc i + j)) pid = Inr False"
    using Suc.prems(2) by (metis Suc_less_eq add_Suc_shift)
  ultimately have "wait_buffer_ready world pid 0 (Suc i) = Some (Suc i + n, Inr ())"
    by (rule Suc.IH)
  with first show ?case
    by (subst wait_buffer_ready.simps) simp
qed

text \<open>
  Leader \<open>a\<close> with follower \<open>b\<close>, \<open>b\<close> ready from the third pass on: both sessions get
  \<^verbatim>\<open>strm u\<close> with their own jiffies + 20 (here 1000 + 20) and a backoff of one second.
\<close>

lemma buffer_ready_start_example:
  "map_option (\<lambda>r. (fst r, sent (snd r) ''a'', sent (snd r) ''b'',
                     do_not_resync_before (snd r) ''a'', do_not_resync_before (snd r) ''b''))
     (handle_buffer_ready env0
        (\<lambda>i. if i < 2 then grouped SLIM_BUFFER_READY SLIM_BUFFERING
              else grouped SLIM_BUFFER_READY SLIM_BUFFER_READY)
        (mk_client ''a'' SLIM_BUFFER_READY))
   = Some (Inr (), [Call_send_strm CHR ''u'' 1020], [Call_send_strm CHR ''u'' 1020],
           Some 101, Some 101)"
proof -
  let ?w = "\<lambda>i::nat. if i < 2 then grouped SLIM_BUFFER_READY SLIM_BUFFERING
              else grouped SLIM_BUFFER_READY SLIM_BUFFER_READY"
  have "wait_buffer_ready ?w ''a'' 0 0 = Some (0 + 2, Inr ())"
    by (rule wait_buffer_ready_at)
      (simp_all add: childs_all_ready_def get_sync_clients_def grouped_def prov0_def
        mk_player_def mk_client_def Let_def)
  then show ?thesis
    by (simp add: handle_buffer_ready_def get_sync_clients_def unpause_client_def log_call_def
          grouped_def prov0_def mk_player_def mk_client_def env0_def Let_def)
qed

text \<open>
  Claim C1: the buffer-coordinated start waits at most 40 polls for every group member to be
  ready and then, ready or not, sends each member \<^verbatim>\<open>strm u\<close> with its jiffies + 20 and
  records a one-second backoff. The code breaks the bound: with leader \<open>a\<close> ready and
  follower \<open>b\<close> staying in \<^verbatim>\<open>BUFFERING\<close>, no pass finds all sessions ready, and the
  handler never returns; it does not give up after 40 polls and sends no \<^verbatim>\<open>strm u\<close>.
\<close>

theorem buffer_ready_wait_never_ends:
  "childs_all_ready (grouped SLIM_BUFFER_READY SLIM_BUFFERING) ''a'' = Inr False \<and>
   handle_buffer_ready env0 (\<lambda>i. grouped SLIM_BUFFER_READY SLIM_BUFFERING)
     (mk_client ''a'' SLIM_BUFFER_READY) = None"
proof -
  have r: "childs_all_ready (grouped SLIM_BUFFER_READY SLIM_BUFFERING) ''a'' = Inr False"
    by (simp add: childs_all_ready_def get_sync_clients_def grouped_def prov0_def mk_player_def
          mk_client_def Let_def)
  then have "wait_buffer_ready (\<lambda>i. grouped SLIM_BUFFER_READY SLIM_BUFFERING) ''a'' 0 0 = None"
    by (intro wait_buffer_ready_never) simp
  then have "handle_buffer_ready env0 (\<lambda>i. grouped SLIM_BUFFER_READY SLIM_BUFFERING)
     (mk_client ''a'' SLIM_BUFFER_READY) = None"
    by (simp add: handle_buffer_ready_def grouped_def prov0_def mk_player_def mk_client_def Let_def)
  with r show ?thesis by simp
qed

end
